theory Spec2Isabelle
  imports Complex_Main
begin

section \<open>Shift Scheduling Optimizer: the scheduling core of app.py\<close>

text \<open>
  The script reads its inputs from form widgets, validates them, builds a mixed-integer
  linear program with PuLP, solves it and decodes the solution into a table. The
  embedding follows the script from line 24 to line 98. Three library parts are not
  source of the program and are taken as they are used:
  \<^item> the form widgets: a request is the record of what is entered into them, and
    \<open>number_input\<close> stands for the number widget with the bounds and the default the
    script passes to it;
  \<^item> the date formatting \<^verbatim>\<open>(start_date + timedelta(days=day)).strftime('%Y-%m-%d')\<close> is the
    parameter \<open>fmt\<close>, from a date to its text;
  \<^item> the backend behind \<^verbatim>\<open>model.solve()\<close> is the parameter \<open>solve\<close>, from a problem to a
    status and the values of the variables.
\<close>

subsection \<open>Worker names: split and strip\<close>

text \<open>
  A Python string is a list of characters; a \<open>char\<close> is a code point below 256.
  \<^verbatim>\<open>str.isspace\<close> holds on these code points for 9 to 13, 28 to 32, 133 and 160.
\<close>

definition is_space :: "char \<Rightarrow> bool" where
  "is_space c = ((of_char c :: nat) \<in> set [9, 10, 11, 12, 13, 28, 29, 30, 31, 32, 133, 160])"

definition lstrip :: "string \<Rightarrow> string" where
  "lstrip s = dropWhile is_space s"

definition rstrip :: "string \<Rightarrow> string" where
  "rstrip s = rev (dropWhile is_space (rev s))"

text \<open>\<^verbatim>\<open>name.strip()\<close>\<close>

definition strip :: "string \<Rightarrow> string" where
  "strip s = rstrip (lstrip s)"

text \<open>\<^verbatim>\<open>worker_names.split(',')\<close>: the pieces between the commas, at least one piece.\<close>

fun split_comma :: "string \<Rightarrow> string list" where
  "split_comma [] = [[]]"
| "split_comma (c # cs) =
     (if c = CHR '','' then [] # split_comma cs
      else (c # hd (split_comma cs)) # tl (split_comma cs))"

text \<open>\<^verbatim>\<open>workers = [name.strip() for name in worker_names.split(',')]\<close>\<close>

definition parse_workers :: "string \<Rightarrow> string list" where
  "parse_workers worker_names = map strip (split_comma worker_names)"

subsection \<open>The request\<close>

text \<open>
  A date is its proleptic Gregorian ordinal, as \<^verbatim>\<open>date.toordinal()\<close> gives it: the
  difference of two dates in days is the difference of the ordinals, and adding
  \<^verbatim>\<open>timedelta(days=day)\<close> adds \<open>day\<close>. The entry of the days-off widget of a worker is
  a function of the worker's name, as the widget is identified by its label.
\<close>

type_synonym date = int

record request =
  n_workers :: int
  n_workers_per_day :: int
  start_date :: date
  end_date :: date
  worker_names :: string
  days_off_input :: "string \<Rightarrow> int"

text \<open>\<^verbatim>\<open>n_days = (end_date - start_date).days + 1\<close>\<close>

definition n_days :: "request \<Rightarrow> int" where
  "n_days req = end_date req - start_date req + 1"

text \<open>\<^verbatim>\<open>range(n_days)\<close>\<close>

definition day_range :: "request \<Rightarrow> nat list" where
  "day_range req = [0..<nat (n_days req)]"

definition workers :: "request \<Rightarrow> string list" where
  "workers req = parse_workers (worker_names req)"

definition date_str :: "(date \<Rightarrow> string) \<Rightarrow> request \<Rightarrow> nat \<Rightarrow> string" where
  "date_str fmt req day = fmt (start_date req + int day)"

text \<open>
  \<^verbatim>\<open>days_off_dict = {}; for worker in workers: days_off_dict[worker] = st.number_input(...)\<close>
\<close>

definition days_off_dict :: "request \<Rightarrow> (string \<rightharpoonup> int)" where
  "days_off_dict req =
     fold (\<lambda>worker d. d(worker \<mapsto> days_off_input req worker)) (workers req) Map.empty"

subsection \<open>Linear expressions, constraints and problems\<close>

text \<open>
  A decision variable is the penalty or the entry of the dictionary \<open>x\<close> at a key
  (worker, date text, shift type).
\<close>

datatype var = Penalty | X string string nat

datatype category = Continuous | Binary

fun var_cat :: "var \<Rightarrow> category" where
  "var_cat Penalty = Continuous"
| "var_cat (X w d s) = Binary"

fun var_low_bound :: "var \<Rightarrow> real option" where
  "var_low_bound Penalty = Some 0"
| "var_low_bound (X w d s) = Some 0"

fun var_up_bound :: "var \<Rightarrow> real option" where
  "var_up_bound Penalty = None"
| "var_up_bound (X w d s) = Some 1"

definition shift_digit :: "nat \<Rightarrow> string" where
  "shift_digit s = [char_of (48 + s)]"

fun var_name :: "var \<Rightarrow> string" where
  "var_name Penalty = ''penalty''"
| "var_name (X w d s) = ''x_'' @ w @ ''_'' @ d @ ''_'' @ shift_digit s"

text \<open>An affine expression: the terms (variable, coefficient) and the constant.\<close>

type_synonym linexp = "(var \<times> real) list \<times> real"

definition lp_var :: "var \<Rightarrow> linexp" where
  "lp_var v = ([(v, 1)], 0)"

definition lp_const :: "real \<Rightarrow> linexp" where
  "lp_const c = ([], c)"

definition lp_scale :: "linexp \<Rightarrow> real \<Rightarrow> linexp" where
  "lp_scale e k = (map (\<lambda>(v, c). (v, c * k)) (fst e), snd e * k)"

definition lp_add :: "linexp \<Rightarrow> linexp \<Rightarrow> linexp" where
  "lp_add a b = (fst a @ fst b, snd a + snd b)"

definition lp_neg :: "linexp \<Rightarrow> linexp" where
  "lp_neg e = lp_scale e (- 1)"

definition lp_sub :: "linexp \<Rightarrow> linexp \<Rightarrow> linexp" where
  "lp_sub a b = lp_add a (lp_neg b)"

definition lpSum :: "linexp list \<Rightarrow> linexp" where
  "lpSum es = fold (\<lambda>e acc. lp_add acc e) es (lp_const 0)"

definition eval_exp :: "(var \<Rightarrow> real) \<Rightarrow> linexp \<Rightarrow> real" where
  "eval_exp v e = (\<Sum>(x, c)\<leftarrow>fst e. c * v x) + snd e"

definition exp_vars :: "linexp \<Rightarrow> var list" where
  "exp_vars e = map fst (fst e)"

datatype sense = LE | EQ | GE

record lp_constraint =
  c_name :: string
  lhs :: linexp
  c_sense :: sense
  rhs :: linexp

datatype direction = LpMinimize | LpMaximize

record lp_problem =
  p_name :: string
  p_sense :: direction
  objective :: linexp
  objective_name :: string
  constraints :: "lp_constraint list"

definition shift_types :: "nat list" where
  "shift_types = [0, 1, 2, 3]"

definition shift_mapping :: "nat \<rightharpoonup> string" where
  "shift_mapping = [0 \<mapsto> ''Off'', 1 \<mapsto> ''First Half'', 2 \<mapsto> ''Second Half'', 3 \<mapsto> ''Full Day'']"

subsection \<open>The model builder (lines 48 to 76)\<close>

text \<open>Line 70, one per day and worker.\<close>

definition one_shift_constraint :: "string \<Rightarrow> string \<Rightarrow> lp_constraint" where
  "one_shift_constraint worker ds =
     \<lparr>c_name = ''worker_'' @ worker @ ''_day_'' @ ds @ ''_constraint'',
      lhs = lpSum (map (\<lambda>shift_type. lp_var (X worker ds shift_type)) shift_types),
      c_sense = EQ,
      rhs = lp_const 1\<rparr>"

text \<open>Lines 72 and 73, one each per day; \<open>half\<close> is shift type 1 or 2.\<close>

definition coverage_constraint ::
  "string \<Rightarrow> nat \<Rightarrow> string list \<Rightarrow> int \<Rightarrow> string \<Rightarrow> lp_constraint" where
  "coverage_constraint label half ws required ds =
     \<lparr>c_name = label @ ds,
      lhs = lpSum (map (\<lambda>worker. lp_add (lp_scale (lp_var (X worker ds half)) 0.5)
                                       (lp_var (X worker ds 3))) ws),
      c_sense = GE,
      rhs = lp_sub (lp_const (of_int required)) (lp_var Penalty)\<rparr>"

definition hard_full_and_first :: "string list \<Rightarrow> int \<Rightarrow> string \<Rightarrow> lp_constraint" where
  "hard_full_and_first = coverage_constraint ''hard_full_and_first_'' 1"

definition hard_full_and_second :: "string list \<Rightarrow> int \<Rightarrow> string \<Rightarrow> lp_constraint" where
  "hard_full_and_second = coverage_constraint ''hard_full_and_second_'' 2"

text \<open>Line 76, one per worker.\<close>

definition days_off_constraint ::
  "(date \<Rightarrow> string) \<Rightarrow> request \<Rightarrow> string \<Rightarrow> lp_constraint" where
  "days_off_constraint fmt req worker =
     \<lparr>c_name = ''days_off_'' @ worker,
      lhs = lpSum (map (\<lambda>day. lp_var (X worker (date_str fmt req day) 0)) (day_range req)),
      c_sense = EQ,
      rhs = lp_const (of_int (the (days_off_dict req worker)))\<rparr>"

definition day_constraints :: "(date \<Rightarrow> string) \<Rightarrow> request \<Rightarrow> nat \<Rightarrow> lp_constraint list" where
  "day_constraints fmt req day =
     (let ds = date_str fmt req day in
        map (\<lambda>worker. one_shift_constraint worker ds) (workers req)
        @ [hard_full_and_first (workers req) (n_workers_per_day req) ds,
           hard_full_and_second (workers req) (n_workers_per_day req) ds])"

definition build_model :: "(date \<Rightarrow> string) \<Rightarrow> request \<Rightarrow> lp_problem" where
  "build_model fmt req =
     \<lparr>p_name = ''shift-scheduling'',
      p_sense = LpMaximize,
      objective = lp_neg (lp_var Penalty),
      objective_name = ''Minimize_Penalty'',
      constraints =
        concat (map (day_constraints fmt req) (day_range req))
        @ map (days_off_constraint fmt req) (workers req)\<rparr>"

subsection \<open>What a solution of a problem is\<close>

text \<open>
  After the solve every variable has a value (\<^verbatim>\<open>varValue\<close>, a float, or \<^verbatim>\<open>None\<close>). The
  values are taken as real numbers.
\<close>

type_synonym valuation = "var \<Rightarrow> real option"

definition val :: "valuation \<Rightarrow> var \<Rightarrow> real" where
  "val vals x = (case vals x of None \<Rightarrow> 0 | Some r \<Rightarrow> r)"

definition in_domain :: "var \<Rightarrow> real \<Rightarrow> bool" where
  "in_domain x r =
     ((case var_low_bound x of None \<Rightarrow> True | Some l \<Rightarrow> l \<le> r)
      \<and> (case var_up_bound x of None \<Rightarrow> True | Some u \<Rightarrow> r \<le> u)
      \<and> (case var_cat x of Continuous \<Rightarrow> True | Binary \<Rightarrow> r = 0 \<or> r = 1))"

definition holds :: "(var \<Rightarrow> real) \<Rightarrow> lp_constraint \<Rightarrow> bool" where
  "holds v c =
     (case c_sense c of
        LE \<Rightarrow> eval_exp v (lhs c) \<le> eval_exp v (rhs c)
      | EQ \<Rightarrow> eval_exp v (lhs c) = eval_exp v (rhs c)
      | GE \<Rightarrow> eval_exp v (lhs c) \<ge> eval_exp v (rhs c))"

definition problem_vars :: "lp_problem \<Rightarrow> var list" where
  "problem_vars m =
     remdups (exp_vars (objective m)
              @ concat (map (\<lambda>c. exp_vars (lhs c) @ exp_vars (rhs c)) (constraints m)))"

definition feasible :: "lp_problem \<Rightarrow> valuation \<Rightarrow> bool" where
  "feasible m vals =
     (list_all (\<lambda>x. case vals x of None \<Rightarrow> False | Some r \<Rightarrow> in_domain x r) (problem_vars m)
      \<and> list_all (holds (val vals)) (constraints m))"

definition objective_value :: "lp_problem \<Rightarrow> valuation \<Rightarrow> real" where
  "objective_value m vals = eval_exp (val vals) (objective m)"

definition better :: "direction \<Rightarrow> real \<Rightarrow> real \<Rightarrow> bool" where
  "better dir a b = (case dir of LpMaximize \<Rightarrow> b \<le> a | LpMinimize \<Rightarrow> a \<le> b)"

definition optimal :: "lp_problem \<Rightarrow> valuation \<Rightarrow> bool" where
  "optimal m vals =
     (feasible m vals
      \<and> (\<forall>vals'. feasible m vals' \<longrightarrow>
             better (p_sense m) (objective_value m vals) (objective_value m vals')))"

text \<open>
  The contract of the backend on a problem: status 1 (PuLP's \<^verbatim>\<open>LpStatusOptimal\<close>) comes
  with the values of an optimal solution, and it is returned whenever the problem has
  an optimal solution.
\<close>

type_synonym solver = "lp_problem \<Rightarrow> int \<times> valuation"

definition solver_sound :: "solver \<Rightarrow> lp_problem \<Rightarrow> bool" where
  "solver_sound solve m = (fst (solve m) = 1 \<longrightarrow> optimal m (snd (solve m)))"

definition solver_complete :: "solver \<Rightarrow> lp_problem \<Rightarrow> bool" where
  "solver_complete solve m = ((\<exists>vals. optimal m vals) \<longrightarrow> fst (solve m) = 1)"

subsection \<open>The decoder (lines 83 to 91)\<close>

type_synonym table = "string \<rightharpoonup> (string \<rightharpoonup> string)"

text \<open>
  \<^verbatim>\<open>data = {worker: {date: "" for day in range(n_days)} for worker in workers}\<close>
\<close>

definition empty_row :: "string list \<Rightarrow> (string \<rightharpoonup> string)" where
  "empty_row dss = fold (\<lambda>ds row. row(ds \<mapsto> [])) dss Map.empty"

definition init_data :: "string list \<Rightarrow> string list \<Rightarrow> table" where
  "init_data ws dss = fold (\<lambda>worker data. data(worker \<mapsto> empty_row dss)) ws Map.empty"

text \<open>\<^verbatim>\<open>data[worker][date_str] = label\<close>; the row of every worker exists.\<close>

definition set_cell :: "table \<Rightarrow> string \<Rightarrow> string \<Rightarrow> string \<Rightarrow> table" where
  "set_cell data worker ds label =
     (case data worker of None \<Rightarrow> data | Some row \<Rightarrow> data(worker \<mapsto> row(ds \<mapsto> label)))"

text \<open>\<^verbatim>\<open>if var.varValue:\<close> the truth value of a float or \<^verbatim>\<open>None\<close>.\<close>

definition truthy :: "real option \<Rightarrow> bool" where
  "truthy r = (case r of None \<Rightarrow> False | Some a \<Rightarrow> a \<noteq> 0)"

definition decode_shift :: "valuation \<Rightarrow> string \<Rightarrow> string \<Rightarrow> nat \<Rightarrow> table \<Rightarrow> table" where
  "decode_shift vals ds worker shift_type data =
     (if truthy (vals (X worker ds shift_type))
      then set_cell data worker ds (the (shift_mapping shift_type))
      else data)"

definition decode_worker :: "valuation \<Rightarrow> string \<Rightarrow> string \<Rightarrow> table \<Rightarrow> table" where
  "decode_worker vals ds worker data = fold (decode_shift vals ds worker) shift_types data"

definition decode_day :: "valuation \<Rightarrow> string list \<Rightarrow> string \<Rightarrow> table \<Rightarrow> table" where
  "decode_day vals ws ds data = fold (decode_worker vals ds) ws data"

definition decode :: "(date \<Rightarrow> string) \<Rightarrow> request \<Rightarrow> valuation \<Rightarrow> table" where
  "decode fmt req vals =
     (let dss = map (date_str fmt req) (day_range req) in
        fold (decode_day vals (workers req)) dss (init_data (workers req) dss))"

text \<open>The label of a cell of a table, when the row and the column exist.\<close>

definition cell :: "table \<Rightarrow> string \<Rightarrow> string \<Rightarrow> string option" where
  "cell data worker ds = (case data worker of None \<Rightarrow> None | Some row \<Rightarrow> row ds)"

subsection \<open>The number widget\<close>

text \<open>
  \<^verbatim>\<open>st.number_input(label, min_value=..., max_value=..., value=...)\<close>: the widget raises
  when its default \<open>value\<close> lies outside the bounds, and two widgets of the same kind,
  label and arguments raise at the second. The form offers no entry outside the
  bounds, so a widget that does not raise returns an entry within them; a request with
  an entry outside the bounds is not an input of the script, and is marked as such.
\<close>

datatype exn = StreamlitValueBelowMinError | StreamlitValueAboveMaxError | DuplicateWidgetID

datatype failure = Raises exn | Not_receivable

definition number_input :: "int \<Rightarrow> int \<Rightarrow> int \<Rightarrow> int \<Rightarrow> failure + int" where
  "number_input min_value max_value value entry =
     (if value < min_value then Inl (Raises StreamlitValueBelowMinError)
      else if max_value < value then Inl (Raises StreamlitValueAboveMaxError)
      else if entry < min_value \<or> max_value < entry then Inl Not_receivable
      else Inr entry)"

text \<open>
  Lines 44 to 46, the loop over the workers: each turn calls the widget with the bounds
  0 and \<open>n_days\<close> and the default 5, under a label made of the worker's name. The result is
  the first failure, if any; \<open>seen\<close> are the names whose widget exists already. When no
  widget fails, each has returned its entry and the dictionary is \<open>days_off_dict\<close>.
\<close>

fun days_off_widgets :: "request \<Rightarrow> string list \<Rightarrow> string list \<Rightarrow> failure option" where
  "days_off_widgets req seen [] = None"
| "days_off_widgets req seen (worker # rest) =
     (case number_input 0 (n_days req) 5 (days_off_input req worker) of
        Inl f \<Rightarrow> Some f
      | Inr v \<Rightarrow>
          if worker \<in> set seen then Some (Raises DuplicateWidgetID)
          else days_off_widgets req (worker # seen) rest)"

subsection \<open>The script (lines 24 to 98)\<close>

text \<open>
  What the script shows, in order. The table is shown by \<^verbatim>\<open>st.write(df)\<close> and exported by
  the link of \<^verbatim>\<open>to_csv_link(df)\<close>; the data frame is the table \<open>data\<close>, and the
  serialisation of the link is not modelled. \<open>Aborted\<close> is the end of a run at a widget
  that fails.
\<close>

datatype ui_event =
    Warning string
  | Stop
  | Success string
  | Write_table table
  | Csv_link table
  | Error string
  | Aborted failure

text \<open>
  The state at the end of the run: what was shown, and the values of the script's
  variables \<open>model\<close>, \<open>status\<close> and \<open>data\<close> (\<open>None\<close> when the run ended before the
  assignment).
\<close>

record run_state =
  shown :: "ui_event list"
  model :: "lp_problem option"
  status :: "int option"
  data :: "table option"

definition halt :: "string \<Rightarrow> run_state" where
  "halt msg = \<lparr>shown = [Warning msg, Stop], model = None, status = None, data = None\<rparr>"

definition abort :: "failure \<Rightarrow> run_state" where
  "abort f = \<lparr>shown = [Aborted f], model = None, status = None, data = None\<rparr>"

text \<open>Lines 48 to 98: build the model, solve it, decode and show.\<close>

definition solve_and_show :: "(date \<Rightarrow> string) \<Rightarrow> solver \<Rightarrow> request \<Rightarrow> run_state" where
  "solve_and_show fmt solve req =
     (let m = build_model fmt req;
          (st, vals) = solve m
      in if st = 1
         then let df = decode fmt req vals
              in \<lparr>shown = [Success ''Optimal solution found.'', Write_table df, Csv_link df],
                  model = Some m, status = Some st, data = Some df\<rparr>
         else \<lparr>shown = [Error ''No solution found.''],
               model = Some m, status = Some st, data = None\<rparr>)"

text \<open>
  Lines 24 to 46, then the rest: the widget of the number of workers (bounds 1 and 20,
  default 5), the widget of the workers required per day (bounds 1 and the number of
  workers, default 3), the check of the dates, the check of the number of names, and
  the days-off widgets. A widget that does not fail returns its entry, which is the
  field of the request that the later lines read.
\<close>

definition run :: "(date \<Rightarrow> string) \<Rightarrow> solver \<Rightarrow> request \<Rightarrow> run_state" where
  "run fmt solve req =
     (case number_input 1 20 5 (n_workers req) of
        Inl f \<Rightarrow> abort f
      | Inr workers_entered \<Rightarrow>
     (case number_input 1 workers_entered 3 (n_workers_per_day req) of
        Inl f \<Rightarrow> abort f
      | Inr required_entered \<Rightarrow>
          if end_date req < start_date req
          then halt ''The end date should be after the start date.''
          else if int (length (workers req)) \<noteq> workers_entered
          then halt ''The number of worker names should match the number of workers.''
          else
            (case days_off_widgets req [] (workers req) of
               Some f \<Rightarrow> abort f
             | None \<Rightarrow> solve_and_show fmt solve req)))"

text \<open>
  The requests for which the run reaches line 48: no widget fails and both checks pass.
\<close>

definition reaches_model :: "request \<Rightarrow> bool" where
  "reaches_model req =
     (3 \<le> n_workers req \<and> n_workers req \<le> 20
      \<and> 1 \<le> n_workers_per_day req \<and> n_workers_per_day req \<le> n_workers req
      \<and> \<not> end_date req < start_date req
      \<and> int (length (workers req)) = n_workers req
      \<and> 5 \<le> n_days req
      \<and> distinct (workers req)
      \<and> list_all (\<lambda>w. 0 \<le> days_off_input req w \<and> days_off_input req w \<le> n_days req)
           (workers req))"

subsection \<open>An instance of the date formatting\<close>

text \<open>
  The conversion of an ordinal to year, month and day as the standard library computes
  it, and the text \<^verbatim>\<open>YYYY-MM-DD\<close> of the result. It instantiates \<open>fmt\<close> in the examples.
\<close>

definition days_before_month :: "int \<Rightarrow> int" where
  "days_before_month m = [- 1, 0, 31, 59, 90, 120, 151, 181, 212, 243, 273, 304, 334] ! nat m"

definition days_in_month :: "int \<Rightarrow> int" where
  "days_in_month m = [- 1, 31, 28, 31, 30, 31, 30, 31, 31, 30, 31, 30, 31] ! nat m"

definition ord2ymd :: "int \<Rightarrow> int \<times> int \<times> int" where
  "ord2ymd ordinal =
     (let n = ordinal - 1;
          n400 = n div 146097; n = n mod 146097;
          n100 = n div 36524; n = n mod 36524;
          n4 = n div 1461; n = n mod 1461;
          n1 = n div 365; n = n mod 365;
          year = n400 * 400 + 1 + n100 * 100 + n4 * 4 + n1
      in if n1 = 4 \<or> n100 = 4 then (year - 1, 12, 31)
         else
           let leapyear = (n1 = 3 \<and> (n4 \<noteq> 24 \<or> n100 = 3));
               month = (n + 50) div 32;
               preceding = days_before_month month + (if month > 2 \<and> leapyear then 1 else 0)
           in if preceding > n
              then let month' = month - 1;
                       preceding' = preceding
                         - (days_in_month month' + (if month' = 2 \<and> leapyear then 1 else 0))
                   in (year, month', n - preceding' + 1)
              else (year, month, n - preceding + 1))"

definition digit_char :: "int \<Rightarrow> char" where
  "digit_char k = ''0123456789'' ! nat (k mod 10)"

definition strftime_ymd :: "date \<Rightarrow> string" where
  "strftime_ymd d =
     (case ord2ymd d of (y, m, dd) \<Rightarrow>
        [digit_char (y div 1000), digit_char (y div 100), digit_char (y div 10), digit_char y]
        @ ''-'' @ [digit_char (m div 10), digit_char m]
        @ ''-'' @ [digit_char (dd div 10), digit_char dd])"

subsection \<open>Example requests and backends\<close>

text \<open>The ordinal of 2023-08-01 is 738733.\<close>

definition req_dates_reversed :: request where
  "req_dates_reversed =
     \<lparr>n_workers = 5, n_workers_per_day = 3, start_date = 738733, end_date = 738732,
      worker_names = ''A,B,C,D,E'', days_off_input = (\<lambda>w. 5)\<rparr>"

definition req_names_short :: request where
  "req_names_short =
     \<lparr>n_workers = 5, n_workers_per_day = 3, start_date = 738733, end_date = 738763,
      worker_names = ''A,B,C'', days_off_input = (\<lambda>w. 5)\<rparr>"

definition req_default :: request where
  "req_default =
     \<lparr>n_workers = 5, n_workers_per_day = 3, start_date = 738733, end_date = 738763,
      worker_names = ''A,B,C,D,E'', days_off_input = (\<lambda>w. 5)\<rparr>"

text \<open>
  The default form with the range cut to three days, and with two workers declared:
  once with the dates reversed, once with the five default names.
\<close>

definition req_three_days :: request where
  "req_three_days =
     \<lparr>n_workers = 5, n_workers_per_day = 3, start_date = 738733, end_date = 738735,
      worker_names = ''A,B,C,D,E'', days_off_input = (\<lambda>w. 5)\<rparr>"

definition req_two_reversed :: request where
  "req_two_reversed =
     \<lparr>n_workers = 2, n_workers_per_day = 1, start_date = 738733, end_date = 738732,
      worker_names = ''A,B'', days_off_input = (\<lambda>w. 5)\<rparr>"

definition req_two_names :: request where
  "req_two_names =
     \<lparr>n_workers = 2, n_workers_per_day = 1, start_date = 738733, end_date = 738763,
      worker_names = ''A,B,C,D,E'', days_off_input = (\<lambda>w. 5)\<rparr>"

text \<open>A backend that reports the problem infeasible (PuLP's status \<open>-1\<close>).\<close>

definition solver_infeasible :: solver where
  "solver_infeasible m = (- 1, (\<lambda>x. None))"

text \<open>
  The values that encode a schedule: each worker works the shift type \<open>sched\<close> gives on
  each date, and the penalty is \<open>p\<close>.
\<close>

definition vals_of_schedule :: "(string \<Rightarrow> string \<Rightarrow> nat) \<Rightarrow> real \<Rightarrow> valuation" where
  "vals_of_schedule sched p x =
     (case x of Penalty \<Rightarrow> Some p | X w ds s \<Rightarrow> Some (if sched w ds = s then 1 else 0))"

text \<open>A backend that answers status 1 with the values of a fixed schedule.\<close>

definition solver_returning :: "valuation \<Rightarrow> solver" where
  "solver_returning vals m = (1, vals)"

subsection \<open>Names written with padding\<close>

text \<open>
  \<open>join_comma\<close> writes names separated by commas; \<open>padded\<close> puts the text \<open>p\<close> before
  and \<open>q\<close> after each name. Two inputs differ only in the white space around the commas
  when they are the same names under two paddings of white space.
\<close>

fun join_comma :: "string list \<Rightarrow> string" where
  "join_comma [] = []"
| "join_comma [n] = n"
| "join_comma (n # m # ns) = n @ CHR '','' # join_comma (m # ns)"

definition padded :: "string list \<Rightarrow> string list \<Rightarrow> string list \<Rightarrow> string list" where
  "padded ps ns qs = map (\<lambda>(p, n, q). p @ n @ q) (zip ps (zip ns qs))"

subsection \<open>The label a cell ends with\<close>

text \<open>
  The shift types of a cell whose value is true in the decoder's test, in the order
  of the loop, and the label of the last of them: the decoder overwrites the cell at
  each of them.
\<close>

definition selected :: "valuation \<Rightarrow> string \<Rightarrow> string \<Rightarrow> nat list \<Rightarrow> nat list" where
  "selected vals worker ds ss = filter (\<lambda>s. truthy (vals (X worker ds s))) ss"

definition final_label :: "valuation \<Rightarrow> string \<Rightarrow> string \<Rightarrow> string" where
  "final_label vals worker ds =
     (case rev (selected vals worker ds shift_types) of
        [] \<Rightarrow> []
      | s # _ \<Rightarrow> the (shift_mapping s))"

subsection \<open>The scenario of five workers and five days\<close>

text \<open>
  Workers A to E, 2023-08-01 to 2023-08-05, three workers required per day, one day off
  each. In the schedule each worker is off on one day of their own and works the full
  day otherwise; the penalty is 0.
\<close>

definition req_scenario :: request where
  "req_scenario =
     \<lparr>n_workers = 5, n_workers_per_day = 3, start_date = 738733, end_date = 738737,
      worker_names = ''A,B,C,D,E'', days_off_input = (\<lambda>w. 1)\<rparr>"

definition sched_scenario :: "string \<Rightarrow> string \<Rightarrow> nat" where
  "sched_scenario w ds =
     (if (w, ds) \<in> set [(''A'', ''2023-08-01''), (''B'', ''2023-08-02''), (''C'', ''2023-08-03''),
                         (''D'', ''2023-08-04''), (''E'', ''2023-08-05'')]
      then 0 else 3)"

definition vals_scenario :: valuation where
  "vals_scenario = vals_of_schedule sched_scenario 0"

subsection \<open>The decoding rule as the specification words it\<close>

text \<open>
  The specification's rule for a cell: a value of at least 0.5 counts as selected, and
  the first selected shift type in the order Off, First Half, Second Half, Full Day
  gives the label. \<open>vals_tie\<close> are values with two non-zero entries in the cells of A
  and B on 2023-08-01.
\<close>

definition claimed_selected :: "real option \<Rightarrow> bool" where
  "claimed_selected r = (case r of None \<Rightarrow> False | Some a \<Rightarrow> a \<ge> 0.5)"

definition claimed_label :: "valuation \<Rightarrow> string \<Rightarrow> string \<Rightarrow> string" where
  "claimed_label vals worker ds =
     (case filter (\<lambda>s. claimed_selected (vals (X worker ds s))) shift_types of
        [] \<Rightarrow> []
      | s # _ \<Rightarrow> the (shift_mapping s))"

definition vals_tie :: valuation where
  "vals_tie x =
     (if x = X ''A'' ''2023-08-01'' 3 then Some 1
      else if x = X ''B'' ''2023-08-01'' 0 then Some 0.75
      else if x = X ''B'' ''2023-08-01'' 1 then Some 0.25
      else if x = X ''B'' ''2023-08-01'' 3 then Some 0
      else vals_scenario x)"

subsection \<open>A request with a quota above the range\<close>

text \<open>Five workers, the ten days from 2023-08-01, and 11 days off requested for A.\<close>

definition req_over :: request where
  "req_over =
     \<lparr>n_workers = 5, n_workers_per_day = 3, start_date = 738733, end_date = 738742,
      worker_names = ''A,B,C,D,E'', days_off_input = (\<lambda>w. if w = ''A'' then 11 else 5)\<rparr>"

text \<open>The scenario with all five workers required on every day.\<close>

definition req_scenario_all :: request where
  "req_scenario_all = req_scenario\<lparr>n_workers_per_day := 5\<rparr>"

subsection \<open>A schedule that meets the quotas\<close>

text \<open>
  Each worker is off on the first days of the range, as many as requested, and works
  the full day on the others.
\<close>

definition off_first :: "(date \<Rightarrow> string) \<Rightarrow> request \<Rightarrow> string \<Rightarrow> string \<Rightarrow> nat" where
  "off_first fmt req w ds =
     (if ds \<in> set (map (date_str fmt req) (take (nat (days_off_input req w)) (day_range req)))
      then 0 else 3)"

section \<open>Properties\<close>

subsection \<open>The stages of the run\<close>

lemma split_comma_nonempty: "split_comma s \<noteq> []"
  by (induction s) auto

lemma length_workers: "length (workers req) = length (split_comma (worker_names req))"
  by (simp add: workers_def parse_workers_def)

lemma workers_nonempty: "workers req \<noteq> []"
  by (simp add: workers_def parse_workers_def split_comma_nonempty)

lemma number_input_Inr:
  "number_input lo hi d e = Inr v \<longleftrightarrow> lo \<le> d \<and> d \<le> hi \<and> lo \<le> e \<and> e \<le> hi \<and> v = e"
  by (auto simp: number_input_def)

lemma number_input_Inl:
  "number_input lo hi d e = Inl f \<longleftrightarrow>
     (d < lo \<and> f = Raises StreamlitValueBelowMinError)
     \<or> (lo \<le> d \<and> hi < d \<and> f = Raises StreamlitValueAboveMaxError)
     \<or> (lo \<le> d \<and> d \<le> hi \<and> (e < lo \<or> hi < e) \<and> f = Not_receivable)"
  by (auto simp: number_input_def)

lemma days_off_widgets_None:
  "days_off_widgets req seen ws = None \<longleftrightarrow>
     (ws = [] \<or> 5 \<le> n_days req)
     \<and> list_all (\<lambda>w. 0 \<le> days_off_input req w \<and> days_off_input req w \<le> n_days req) ws
     \<and> distinct ws \<and> set ws \<inter> set seen = {}"
proof (induction ws arbitrary: seen)
  case Nil
  then show ?case by simp
next
  case (Cons w ws)
  show ?case
  proof (cases "number_input 0 (n_days req) 5 (days_off_input req w)")
    case (Inl f)
    then have "\<not> (5 \<le> n_days req \<and> 0 \<le> days_off_input req w \<and> days_off_input req w \<le> n_days req)"
      by (auto simp: number_input_def split: if_splits)
    with Inl show ?thesis by auto
  next
    case (Inr v)
    then have "5 \<le> n_days req \<and> 0 \<le> days_off_input req w \<and> days_off_input req w \<le> n_days req"
      by (simp add: number_input_Inr)
    with Inr show ?thesis
      by (auto simp: Cons.IH)
  qed
qed

lemma run_reaches:
  assumes "reaches_model req"
  shows "run fmt solve req = solve_and_show fmt solve req"
proof -
  from assms have a: "number_input 1 20 5 (n_workers req) = Inr (n_workers req)"
    and b: "number_input 1 (n_workers req) 3 (n_workers_per_day req) = Inr (n_workers_per_day req)"
    by (simp_all add: reaches_model_def number_input_def)
  from assms have "days_off_widgets req [] (workers req) = None"
    by (simp add: days_off_widgets_None reaches_model_def)
  with assms a b show ?thesis
    by (simp add: run_def reaches_model_def)
qed

lemma solve_and_show_fields:
  "model (solve_and_show fmt solve req) = Some (build_model fmt req)"
  "status (solve_and_show fmt solve req) = Some (fst (solve (build_model fmt req)))"
  "data (solve_and_show fmt solve req)
     = (if fst (solve (build_model fmt req)) = 1
        then Some (decode fmt req (snd (solve (build_model fmt req)))) else None)"
  "shown (solve_and_show fmt solve req)
     = (if fst (solve (build_model fmt req)) = 1
        then [Success ''Optimal solution found.'',
              Write_table (decode fmt req (snd (solve (build_model fmt req)))),
              Csv_link (decode fmt req (snd (solve (build_model fmt req))))]
        else [Error ''No solution found.''])"
  by (simp_all add: solve_and_show_def Let_def split: prod.splits)

lemma run_not_reaches:
  assumes "\<not> reaches_model req"
  shows "model (run fmt solve req) = None \<and> status (run fmt solve req) = None
       \<and> data (run fmt solve req) = None"
proof (cases "number_input 1 20 5 (n_workers req)")
  case (Inl f)
  then show ?thesis by (simp add: run_def abort_def)
next
  case a: (Inr nw)
  then have nw: "nw = n_workers req" "1 \<le> n_workers req" "n_workers req \<le> 20"
    by (simp_all add: number_input_Inr)
  show ?thesis
  proof (cases "number_input 1 nw 3 (n_workers_per_day req)")
    case (Inl f)
    with a show ?thesis by (simp add: run_def abort_def)
  next
    case b: (Inr r)
    then have r: "3 \<le> n_workers req" "1 \<le> n_workers_per_day req"
      "n_workers_per_day req \<le> n_workers req"
      using nw by (simp_all add: number_input_Inr)
    show ?thesis
    proof (cases "days_off_widgets req [] (workers req)")
      case None
      then have "5 \<le> n_days req" "distinct (workers req)"
        "list_all (\<lambda>w. 0 \<le> days_off_input req w \<and> days_off_input req w \<le> n_days req)
           (workers req)"
        by (simp_all add: days_off_widgets_None workers_nonempty)
      with assms nw r have "end_date req < start_date req
          \<or> int (length (workers req)) \<noteq> n_workers req"
        by (auto simp: reaches_model_def)
      with a b nw show ?thesis
        by (auto simp: run_def halt_def)
    next
      case (Some f)
      with a b show ?thesis
        by (simp add: run_def halt_def abort_def)
    qed
  qed
qed

lemma model_run_iff: "model (run fmt solve req) \<noteq> None \<longleftrightarrow> reaches_model req"
proof (cases "reaches_model req")
  case True
  then show ?thesis by (simp add: run_reaches solve_and_show_fields)
next
  case False
  then show ?thesis using run_not_reaches [of req fmt solve] by simp
qed

lemma status_run_iff: "status (run fmt solve req) \<noteq> None \<longleftrightarrow> reaches_model req"
proof (cases "reaches_model req")
  case True
  then show ?thesis by (simp add: run_reaches solve_and_show_fields)
next
  case False
  then show ?thesis using run_not_reaches [of req fmt solve] by simp
qed

lemma run_data_Some:
  assumes "data (run fmt solve req) = Some df"
  shows "reaches_model req
       \<and> fst (solve (build_model fmt req)) = 1
       \<and> df = decode fmt req (snd (solve (build_model fmt req)))"
proof (cases "reaches_model req")
  case True
  with assms show ?thesis
    by (simp add: run_reaches solve_and_show_fields split: if_splits)
next
  case False
  with assms show ?thesis using run_not_reaches [of req fmt solve] by simp
qed

subsection \<open>Input validation\<close>

lemma run_at_checks:
  assumes "3 \<le> n_workers req" and "n_workers req \<le> 20"
    and "1 \<le> n_workers_per_day req" and "n_workers_per_day req \<le> n_workers req"
  shows "run fmt solve req =
     (if end_date req < start_date req
      then halt ''The end date should be after the start date.''
      else if int (length (workers req)) \<noteq> n_workers req
      then halt ''The number of worker names should match the number of workers.''
      else (case days_off_widgets req [] (workers req) of
              Some f \<Rightarrow> abort f
            | None \<Rightarrow> solve_and_show fmt solve req))"
  using assms by (simp add: run_def number_input_def)

lemma validation_halts_from_three_workers:
  assumes "3 \<le> n_workers req" and "n_workers req \<le> 20"
    and "1 \<le> n_workers_per_day req" and "n_workers_per_day req \<le> n_workers req"
    and "end_date req < start_date req
         \<or> int (length (split_comma (worker_names req))) \<noteq> n_workers req"
  shows "(\<exists>msg. shown (run fmt solve req) = [Warning msg, Stop])
         \<and> model (run fmt solve req) = None
         \<and> status (run fmt solve req) = None
         \<and> data (run fmt solve req) = None"
  using assms(5) unfolding run_at_checks [OF assms(1-4)]
  by (auto simp: halt_def length_workers)

lemma run_below_three_workers:
  assumes "1 \<le> n_workers req" and "n_workers req < 3"
  shows "run fmt solve req = abort (Raises StreamlitValueAboveMaxError)"
  using assms by (simp add: run_def number_input_def)

text \<open>
  C9: with reversed dates, or with a number of names that differs from the declared
  number of workers, the run should halt with the warning of the check. With one or two
  workers declared it does not: the widget of line 25 is called with the default 3 above
  its upper bound and raises before either check is reached. With three to twenty
  workers the warning is shown, no model is built and nothing is solved
  (\<open>validation_halts_from_three_workers\<close>).
\<close>

theorem validation_unreached_two_workers:
  "end_date req_two_reversed < start_date req_two_reversed
   \<and> run strftime_ymd solver_infeasible req_two_reversed
       = \<lparr>shown = [Aborted (Raises StreamlitValueAboveMaxError)],
          model = None, status = None, data = None\<rparr>
   \<and> int (length (split_comma (worker_names req_two_names))) = 5
   \<and> n_workers req_two_names = 2
   \<and> run strftime_ymd solver_infeasible req_two_names
       = \<lparr>shown = [Aborted (Raises StreamlitValueAboveMaxError)],
          model = None, status = None, data = None\<rparr>"
proof -
  have "run strftime_ymd solver_infeasible req_two_reversed
      = abort (Raises StreamlitValueAboveMaxError)"
    by (rule run_below_three_workers) (simp_all add: req_two_reversed_def)
  moreover have "run strftime_ymd solver_infeasible req_two_names
      = abort (Raises StreamlitValueAboveMaxError)"
    by (rule run_below_three_workers) (simp_all add: req_two_names_def)
  ultimately show ?thesis
    by (simp add: abort_def) (simp add: req_two_reversed_def req_two_names_def)
qed

subsection \<open>The outcome of the solve\<close>

lemma reaches_default: "reaches_model req_default"
  by (simp add: reaches_model_def workers_def parse_workers_def strip_def lstrip_def
      rstrip_def is_space_def n_days_def req_default_def)

text \<open>
  C8: whenever the run comes to a solve, its status is the backend's answer on the built
  model; a status other than 1 shows exactly the message "No solution found." and
  produces no table and no export; status 1 shows "Optimal solution found." followed by
  the table and its export link. The backend is consulted on the built model only: a
  backend that answers the same on that model gives the same run, so nothing is retried
  or relaxed.
\<close>

theorem status_outcome:
  assumes "status (run fmt solve req) = Some st"
  shows "st = fst (solve (build_model fmt req))
       \<and> model (run fmt solve req) = Some (build_model fmt req)
       \<and> (st \<noteq> 1 \<longrightarrow>
            shown (run fmt solve req) = [Error ''No solution found.'']
            \<and> data (run fmt solve req) = None)
       \<and> (st = 1 \<longrightarrow>
            (let df = decode fmt req (snd (solve (build_model fmt req))) in
             shown (run fmt solve req)
               = [Success ''Optimal solution found.'', Write_table df, Csv_link df]
             \<and> data (run fmt solve req) = Some df))
       \<and> (\<forall>solve'. solve' (build_model fmt req) = solve (build_model fmt req) \<longrightarrow>
             run fmt solve' req = run fmt solve req)"
proof -
  from assms have r: "reaches_model req"
    using status_run_iff [of fmt solve req] by simp
  then have e: "run fmt solve' req = solve_and_show fmt solve' req" for solve'
    by (rule run_reaches)
  have same: "\<forall>solve'. solve' (build_model fmt req) = solve (build_model fmt req) \<longrightarrow>
             run fmt solve' req = run fmt solve req"
    by (simp add: e solve_and_show_def)
  have rest: "st = fst (solve (build_model fmt req))
       \<and> model (run fmt solve req) = Some (build_model fmt req)
       \<and> (st \<noteq> 1 \<longrightarrow>
            shown (run fmt solve req) = [Error ''No solution found.'']
            \<and> data (run fmt solve req) = None)
       \<and> (st = 1 \<longrightarrow>
            (let df = decode fmt req (snd (solve (build_model fmt req))) in
             shown (run fmt solve req)
               = [Success ''Optimal solution found.'', Write_table df, Csv_link df]
             \<and> data (run fmt solve req) = Some df))"
    using assms by (auto simp: e solve_and_show_fields Let_def)
  from rest same show ?thesis by blast
qed

theorem status_outcome_witness:
  "status (run strftime_ymd solver_infeasible req_default) = Some (- 1)
   \<and> shown (run strftime_ymd solver_infeasible req_default) = [Error ''No solution found.'']
   \<and> data (run strftime_ymd solver_infeasible req_default) = None
   \<and> status (run strftime_ymd (solver_returning (vals_of_schedule (\<lambda>w ds. 3) 0)) req_default)
       = Some 1
   \<and> shown (run strftime_ymd (solver_returning (vals_of_schedule (\<lambda>w ds. 3) 0)) req_default)
       = [Success ''Optimal solution found.'',
          Write_table (decode strftime_ymd req_default (vals_of_schedule (\<lambda>w ds. 3) 0)),
          Csv_link (decode strftime_ymd req_default (vals_of_schedule (\<lambda>w ds. 3) 0))]"
proof -
  let ?ok = "solver_returning (vals_of_schedule (\<lambda>w ds. 3) 0)"
  have a: "status (run strftime_ymd solver_infeasible req_default) = Some (- 1)"
    by (simp add: run_reaches [OF reaches_default] solve_and_show_fields solver_infeasible_def)
  have b: "status (run strftime_ymd ?ok req_default) = Some 1"
    by (simp add: run_reaches [OF reaches_default] solve_and_show_fields solver_returning_def)
  note t1 = status_outcome [OF a, THEN conjunct2, THEN conjunct2, THEN conjunct1]
  note t2 = status_outcome [OF b, THEN conjunct2, THEN conjunct2, THEN conjunct2, THEN conjunct1]
  have "shown (run strftime_ymd solver_infeasible req_default) = [Error ''No solution found.'']
      \<and> data (run strftime_ymd solver_infeasible req_default) = None"
    using t1 by simp
  moreover
  have "let df = decode strftime_ymd req_default
                   (snd (?ok (build_model strftime_ymd req_default))) in
        shown (run strftime_ymd ?ok req_default)
          = [Success ''Optimal solution found.'', Write_table df, Csv_link df]
        \<and> data (run strftime_ymd ?ok req_default) = Some df"
    using t2 by simp
  ultimately show ?thesis
    using a b by (simp add: solver_returning_def Let_def)
qed

subsection \<open>Worker names\<close>

lemma split_comma_append_no_comma:
  "CHR '','' \<notin> set n \<Longrightarrow> split_comma (n @ s) = (n @ hd (split_comma s)) # tl (split_comma s)"
  by (induction n) (auto simp: split_comma_nonempty)

lemma split_comma_no_comma: "CHR '','' \<notin> set n \<Longrightarrow> split_comma n = [n]"
  by (induction n) auto

lemma split_comma_join:
  "ns \<noteq> [] \<Longrightarrow> \<forall>n\<in>set ns. CHR '','' \<notin> set n \<Longrightarrow> split_comma (join_comma ns) = ns"
proof (induction ns rule: join_comma.induct)
  case 1
  then show ?case by simp
next
  case (2 n)
  then show ?case by (simp add: split_comma_no_comma)
next
  case (3 n m ns)
  then show ?case by (simp add: split_comma_append_no_comma)
qed

lemma lstrip_pad: "list_all is_space p \<Longrightarrow> lstrip (p @ s) = lstrip s"
  by (induction p) (auto simp: lstrip_def)

lemma rstrip_pad: "list_all is_space q \<Longrightarrow> rstrip (s @ q) = rstrip s"
proof -
  assume "list_all is_space q"
  then have "dropWhile is_space (rev q @ rev s) = dropWhile is_space (rev s)"
    by (intro dropWhile_append2) (auto simp: list_all_iff)
  then show ?thesis by (simp add: rstrip_def)
qed


lemma strip_pad:
  assumes "list_all is_space p" and "list_all is_space q"
  shows "strip (p @ n @ q) = strip n"
proof (cases "list_all is_space n")
  case True
  with assms have "list_all is_space (p @ n @ q)" by simp
  then have "lstrip (p @ n @ q) = []" by (simp add: lstrip_def list_all_iff)
  moreover from True have "lstrip n = []" by (simp add: lstrip_def list_all_iff)
  ultimately show ?thesis by (simp add: strip_def)
next
  case False
  then obtain c where "c \<in> set n" "\<not> is_space c" by (auto simp: list_all_iff)
  then have "lstrip (n @ q) = lstrip n @ q" by (simp add: lstrip_def)
  with assms show ?thesis by (simp add: strip_def lstrip_pad rstrip_pad)
qed

lemma strip_all_space: "list_all is_space n \<Longrightarrow> strip n = []"
proof -
  assume "list_all is_space n"
  then have "lstrip n = []" by (simp add: lstrip_def list_all_iff)
  then show ?thesis by (simp add: strip_def rstrip_def)
qed

lemma lstrip_hd: "lstrip s \<noteq> [] \<Longrightarrow> \<not> is_space (hd (lstrip s))"
  unfolding lstrip_def by (metis hd_dropWhile)

lemma rstrip_last: "rstrip s \<noteq> [] \<Longrightarrow> \<not> is_space (last (rstrip s))"
  unfolding rstrip_def by (metis hd_dropWhile last_rev rev_is_Nil_conv)

lemma rstrip_hd:
  assumes "t \<noteq> []" and "\<not> is_space (hd t)"
  shows "rstrip t \<noteq> [] \<and> hd (rstrip t) = hd t"
proof -
  from assms have m: "hd t \<in> set (rev t)" by simp
  from assms have l: "last (rev t) = hd t" by (simp add: last_rev)
  have ne: "dropWhile is_space (rev t) \<noteq> []"
    using m assms(2) by auto
  have "last (dropWhile is_space (rev t)) = last (rev t)"
    using m assms(2) by (rule dropWhile_last)
  with ne l show ?thesis
    by (simp add: rstrip_def hd_rev)
qed

lemma strip_stripped:
  "strip s = [] \<or> (\<not> is_space (hd (strip s)) \<and> \<not> is_space (last (strip s)))"
proof (cases "lstrip s = []")
  case True
  then show ?thesis by (simp add: strip_def rstrip_def)
next
  case False
  then have h: "\<not> is_space (hd (lstrip s))" by (rule lstrip_hd)
  from rstrip_hd [OF False h] have "strip s \<noteq> []" "hd (strip s) = hd (lstrip s)"
    by (simp_all add: strip_def)
  with h rstrip_last [of "lstrip s"] show ?thesis by (simp add: strip_def)
qed

lemma strip_fixed: "t = [] \<or> (\<not> is_space (hd t) \<and> \<not> is_space (last t)) \<Longrightarrow> strip t = t"
proof (cases t)
  case Nil
  then show ?thesis by (simp add: strip_def lstrip_def rstrip_def)
next
  case (Cons a u)
  assume "t = [] \<or> (\<not> is_space (hd t) \<and> \<not> is_space (last t))"
  with Cons have a: "\<not> is_space a" and l: "\<not> is_space (last t)" by auto
  from a Cons have "lstrip t = t" by (simp add: lstrip_def)
  moreover from l have "dropWhile is_space (rev t) = rev t"
    by (simp add: dropWhile_eq_self_iff hd_rev)
  ultimately show ?thesis by (simp add: strip_def rstrip_def)
qed

lemma strip_idem: "strip (strip s) = strip s"
  using strip_stripped [of s] by (rule strip_fixed)

lemma length_padded:
  "length ps = length ns \<Longrightarrow> length qs = length ns \<Longrightarrow> length (padded ps ns qs) = length ns"
  by (simp add: padded_def)

lemma padded_no_comma:
  assumes "\<forall>n\<in>set ns. CHR '','' \<notin> set n"
    and "\<forall>p\<in>set ps. list_all is_space p" and "\<forall>q\<in>set qs. list_all is_space q"
  shows "\<forall>e\<in>set (padded ps ns qs). CHR '','' \<notin> set e"
proof -
  have c: "\<not> is_space CHR '',''" by (simp add: is_space_def)
  { fix p n q assume "(p, n, q) \<in> set (zip ps (zip ns qs))"
    then have "p \<in> set ps" "n \<in> set ns" "q \<in> set qs"
      by (auto dest: set_zip_leftD set_zip_rightD)
    with assms c have "CHR '','' \<notin> set (p @ n @ q)"
      by (auto simp: list_all_iff) }
  then show ?thesis by (auto simp: padded_def)
qed

lemma map_strip_padded:
  assumes "length ps = length ns" and "length qs = length ns"
    and "\<forall>p\<in>set ps. list_all is_space p" and "\<forall>q\<in>set qs. list_all is_space q"
  shows "map strip (padded ps ns qs) = map strip ns"
proof (rule nth_equalityI)
  show "length (map strip (padded ps ns qs)) = length (map strip ns)"
    using assms by (simp add: length_padded)
next
  fix i assume "i < length (map strip (padded ps ns qs))"
  with assms have i: "i < length ns" by (simp add: length_padded)
  with assms have "padded ps ns qs ! i = ps ! i @ ns ! i @ qs ! i"
    by (simp add: padded_def)
  moreover from i assms have "list_all is_space (ps ! i)" "list_all is_space (qs ! i)"
    by (metis nth_mem)+
  ultimately show "map strip (padded ps ns qs) ! i = map strip ns ! i"
    using i assms by (simp add: length_padded strip_pad)
qed

lemma parse_workers_padded:
  assumes "ns \<noteq> []" and "\<forall>n\<in>set ns. CHR '','' \<notin> set n"
    and "length ps = length ns" and "length qs = length ns"
    and "\<forall>p\<in>set ps. list_all is_space p" and "\<forall>q\<in>set qs. list_all is_space q"
  shows "parse_workers (join_comma (padded ps ns qs)) = map strip ns"
proof -
  from assms have "padded ps ns qs \<noteq> []"
    using length_padded [of ps ns qs] by auto
  then have "split_comma (join_comma (padded ps ns qs)) = padded ps ns qs"
    using padded_no_comma [OF assms(2,5,6)] by (rule split_comma_join)
  then show ?thesis
    using map_strip_padded [OF assms(3-6)] by (simp add: parse_workers_def)
qed


lemma run_cong_workers:
  assumes "workers req' = workers req"
    and "n_workers req' = n_workers req" and "n_workers_per_day req' = n_workers_per_day req"
    and "start_date req' = start_date req" and "end_date req' = end_date req"
    and "days_off_input req' = days_off_input req"
  shows "run fmt solve req' = run fmt solve req"
proof -
  have n: "n_days req' = n_days req"
    using assms by (simp add: n_days_def)
  have r: "day_range req' = day_range req"
    using n by (simp add: day_range_def)
  have s: "date_str fmt req' = date_str fmt req"
    using assms by (intro ext) (simp add: date_str_def)
  have "days_off_dict req' = days_off_dict req"
    using assms by (simp add: days_off_dict_def)
  then have "days_off_constraint fmt req' = days_off_constraint fmt req"
    using r s by (intro ext) (simp add: days_off_constraint_def)
  moreover have "day_constraints fmt req' = day_constraints fmt req"
    using assms s by (intro ext) (simp add: day_constraints_def)
  ultimately have "build_model fmt req' = build_model fmt req"
    using assms r by (simp add: build_model_def)
  moreover have "decode fmt req' = decode fmt req"
    using assms r s by (intro ext) (simp add: decode_def)
  ultimately have m: "solve_and_show fmt solve req' = solve_and_show fmt solve req"
    by (simp add: solve_and_show_def Let_def split: prod.splits)
  have "days_off_widgets req' seen ws = days_off_widgets req seen ws" for seen ws
    using n assms(6) by (induction ws arbitrary: seen) (simp_all split: sum.splits)
  with m assms show ?thesis
    by (simp add: run_def split: sum.splits option.splits)
qed

lemma run_not_names_warning:
  assumes "int (length (workers req)) = n_workers req"
  shows "shown (run fmt solve req)
         \<noteq> [Warning ''The number of worker names should match the number of workers.'', Stop]"
  using assms
  by (auto simp: run_def halt_def abort_def solve_and_show_fields number_input_Inr
      split: sum.splits option.splits)

text \<open>
  C10: every worker name is stripped of leading and trailing white space before it is
  used. Names written with any two paddings of white space around the commas give the
  same workers, and the same run (the same rows of the table); a name that is all
  white space becomes the empty name, and the check of the number of names does not
  reject the request when the declared number of workers is the number of names. The
  run then builds the model when every other stage passes: three to twenty workers, the
  dates in order, at least five days, names that differ after stripping and entries
  within the bounds.
\<close>

theorem worker_names_stripped:
  assumes "ns \<noteq> []" and "\<forall>n\<in>set ns. CHR '','' \<notin> set n"
    and "length ps = length ns" and "length qs = length ns"
    and "length ps' = length ns" and "length qs' = length ns"
    and "\<forall>p\<in>set (ps @ qs @ ps' @ qs'). list_all is_space p"
  shows "workers (req\<lparr>worker_names := join_comma (padded ps ns qs)\<rparr>) = map strip ns
       \<and> (\<forall>w\<in>set (map strip ns).
             strip w = w \<and> (w = [] \<or> (\<not> is_space (hd w) \<and> \<not> is_space (last w))))
       \<and> (\<forall>i<length ns. list_all is_space (ns ! i) \<longrightarrow>
             workers (req\<lparr>worker_names := join_comma (padded ps ns qs)\<rparr>) ! i = [])
       \<and> run fmt solve (req\<lparr>worker_names := join_comma (padded ps' ns qs')\<rparr>)
           = run fmt solve (req\<lparr>worker_names := join_comma (padded ps ns qs)\<rparr>)
       \<and> (n_workers req = int (length ns) \<longrightarrow>
             shown (run fmt solve (req\<lparr>worker_names := join_comma (padded ps ns qs)\<rparr>))
             \<noteq> [Warning ''The number of worker names should match the number of workers.'',
                 Stop])
       \<and> (n_workers req = int (length ns)
           \<and> 3 \<le> n_workers req \<and> n_workers req \<le> 20
           \<and> 1 \<le> n_workers_per_day req \<and> n_workers_per_day req \<le> n_workers req
           \<and> \<not> end_date req < start_date req \<and> 5 \<le> n_days req
           \<and> distinct (map strip ns)
           \<and> (\<forall>w\<in>set (map strip ns). 0 \<le> days_off_input req w \<and> days_off_input req w \<le> n_days req)
           \<longrightarrow>
             model (run fmt solve (req\<lparr>worker_names := join_comma (padded ps ns qs)\<rparr>))
             = Some (build_model fmt (req\<lparr>worker_names := join_comma (padded ps ns qs)\<rparr>)))"
proof -
  let ?r = "req\<lparr>worker_names := join_comma (padded ps ns qs)\<rparr>"
  let ?r' = "req\<lparr>worker_names := join_comma (padded ps' ns qs')\<rparr>"
  from assms have sp: "\<forall>p\<in>set ps. list_all is_space p" "\<forall>q\<in>set qs. list_all is_space q"
    "\<forall>p\<in>set ps'. list_all is_space p" "\<forall>q\<in>set qs'. list_all is_space q"
    by auto
  have w: "workers ?r = map strip ns"
    using parse_workers_padded [OF assms(1-4) sp(1,2)] by (simp add: workers_def)
  have w': "workers ?r' = map strip ns"
    using parse_workers_padded [OF assms(1,2,5,6) sp(3,4)] by (simp add: workers_def)
  have st: "\<forall>w\<in>set (map strip ns).
      strip w = w \<and> (w = [] \<or> (\<not> is_space (hd w) \<and> \<not> is_space (last w)))"
    using strip_stripped strip_idem by auto
  have e: "\<forall>i<length ns. list_all is_space (ns ! i) \<longrightarrow> workers ?r ! i = []"
    using w by (simp add: strip_all_space)
  have "workers ?r' = workers ?r" using w w' by simp
  then have run: "run fmt solve ?r' = run fmt solve ?r"
    by (rule run_cong_workers) simp_all
  have acc: "n_workers req = int (length ns) \<longrightarrow>
      shown (run fmt solve ?r)
      \<noteq> [Warning ''The number of worker names should match the number of workers.'', Stop]"
    using run_not_names_warning [of ?r fmt solve] w by simp
  have built: "model (run fmt solve ?r) = Some (build_model fmt ?r)"
    if c: "n_workers req = int (length ns)
           \<and> 3 \<le> n_workers req \<and> n_workers req \<le> 20
           \<and> 1 \<le> n_workers_per_day req \<and> n_workers_per_day req \<le> n_workers req
           \<and> \<not> end_date req < start_date req \<and> 5 \<le> n_days req
           \<and> distinct (map strip ns)
           \<and> (\<forall>w\<in>set (map strip ns). 0 \<le> days_off_input req w \<and> days_off_input req w \<le> n_days req)"
  proof -
    have "n_days ?r = n_days req" by (simp add: n_days_def)
    with c w have "reaches_model ?r"
      by (simp add: reaches_model_def list_all_iff)
    then show ?thesis by (simp add: run_reaches solve_and_show_fields)
  qed
  from w st e run acc built show ?thesis by blast
qed

theorem worker_names_stripped_witness:
  "join_comma (padded ['' '', [], [], [], []] [''A'', ''B'', '' '', ''D'', ''E''] ['' '', [], ''  '', [], '' ''])
     = '' A ,B,   ,D,E ''
   \<and> join_comma (padded [[], [], [], [], []] [''A'', ''B'', '' '', ''D'', ''E''] [[], [], [], [], []])
     = ''A,B, ,D,E''
   \<and> workers (req_default\<lparr>worker_names := '' A ,B,   ,D,E ''\<rparr>) = [''A'', ''B'', [], ''D'', ''E'']
   \<and> run strftime_ymd solver_infeasible (req_default\<lparr>worker_names := ''A,B, ,D,E''\<rparr>)
     = run strftime_ymd solver_infeasible (req_default\<lparr>worker_names := '' A ,B,   ,D,E ''\<rparr>)
   \<and> model (run strftime_ymd solver_infeasible (req_default\<lparr>worker_names := '' A ,B,   ,D,E ''\<rparr>))
     = Some (build_model strftime_ymd (req_default\<lparr>worker_names := '' A ,B,   ,D,E ''\<rparr>))"
proof -
  let ?ns = "[''A'', ''B'', '' '', ''D'', ''E'']"
  let ?ps = "['' '', [], [], [], []]" and ?qs = "['' '', [], ''  '', [], '' '']"
  let ?es = "[[], [], [], [], []] :: string list"
  have j: "join_comma (padded ?ps ?ns ?qs) = '' A ,B,   ,D,E ''"
    by (simp add: padded_def)
  have j': "join_comma (padded ?es ?ns ?es) = ''A,B, ,D,E''"
    by (simp add: padded_def)
  have sp: "\<forall>p\<in>set (?ps @ ?qs @ ?es @ ?es). list_all is_space p"
    by (simp add: is_space_def)
  have nc: "\<forall>n\<in>set ?ns. CHR '','' \<notin> set n" by simp
  have s: "map strip ?ns = [''A'', ''B'', [], ''D'', ''E'']"
    by (simp add: strip_def lstrip_def rstrip_def is_space_def)
  have v: "n_workers req_default = int (length ?ns)
           \<and> 3 \<le> n_workers req_default \<and> n_workers req_default \<le> 20
           \<and> 1 \<le> n_workers_per_day req_default
           \<and> n_workers_per_day req_default \<le> n_workers req_default
           \<and> \<not> end_date req_default < start_date req_default \<and> 5 \<le> n_days req_default
           \<and> distinct (map strip ?ns)
           \<and> (\<forall>w\<in>set (map strip ?ns).
                 0 \<le> days_off_input req_default w \<and> days_off_input req_default w \<le> n_days req_default)"
    unfolding s by (simp add: req_default_def n_days_def)
  note t = worker_names_stripped [of ?ns ?ps ?qs ?es ?es req_default strftime_ymd solver_infeasible,
        unfolded j j', OF _ nc _ _ _ _ sp]
  have t1: "workers (req_default\<lparr>worker_names := '' A ,B,   ,D,E ''\<rparr>) = map strip ?ns"
    using t by simp
  have t4: "run strftime_ymd solver_infeasible (req_default\<lparr>worker_names := ''A,B, ,D,E''\<rparr>)
     = run strftime_ymd solver_infeasible (req_default\<lparr>worker_names := '' A ,B,   ,D,E ''\<rparr>)"
    using t by simp
  have t6: "model (run strftime_ymd solver_infeasible
                (req_default\<lparr>worker_names := '' A ,B,   ,D,E ''\<rparr>))
     = Some (build_model strftime_ymd (req_default\<lparr>worker_names := '' A ,B,   ,D,E ''\<rparr>))"
    using t v by simp
  from t1 t4 t6 s j j' show ?thesis by metis
qed

subsection \<open>Linear expressions and the constraints of the model\<close>

lemma eval_lp_var: "eval_exp v (lp_var x) = v x"
  by (simp add: eval_exp_def lp_var_def)

lemma eval_lp_const: "eval_exp v (lp_const c) = c"
  by (simp add: eval_exp_def lp_const_def)

lemma eval_lp_add: "eval_exp v (lp_add a b) = eval_exp v a + eval_exp v b"
  by (simp add: eval_exp_def lp_add_def)

lemma sum_list_scale_terms:
  "sum_list (map ((\<lambda>(x, c). c * v x) \<circ> (\<lambda>(y, c). (y, c * k))) ts)
   = (\<Sum>(x, c)\<leftarrow>ts. c * v x) * (k::real)"
  by (induction ts) (auto simp: algebra_simps)

lemma eval_lp_scale: "eval_exp v (lp_scale e k) = eval_exp v e * k"
  by (simp add: eval_exp_def lp_scale_def sum_list_scale_terms algebra_simps)

lemma eval_lp_neg: "eval_exp v (lp_neg e) = - eval_exp v e"
  by (simp add: lp_neg_def eval_lp_scale)

lemma eval_lp_sub: "eval_exp v (lp_sub a b) = eval_exp v a - eval_exp v b"
  by (simp add: lp_sub_def eval_lp_add eval_lp_neg)

lemma eval_fold_lp_add:
  "eval_exp v (fold (\<lambda>e acc. lp_add acc e) es a) = eval_exp v a + (\<Sum>e\<leftarrow>es. eval_exp v e)"
  by (induction es arbitrary: a) (simp_all add: eval_lp_add)

lemma eval_lpSum: "eval_exp v (lpSum es) = (\<Sum>e\<leftarrow>es. eval_exp v e)"
  by (simp add: lpSum_def eval_fold_lp_add eval_lp_const)

lemmas eval_simps = eval_lp_var eval_lp_const eval_lp_add eval_lp_scale eval_lp_neg
  eval_lp_sub eval_lpSum

lemma holds_one_shift:
  "holds v (one_shift_constraint w ds)
   \<longleftrightarrow> v (X w ds 0) + v (X w ds 1) + v (X w ds 2) + v (X w ds 3) = 1"
  by (simp add: holds_def one_shift_constraint_def eval_simps shift_types_def comp_def add.assoc)

lemma holds_coverage:
  "holds v (coverage_constraint label half ws required ds)
   \<longleftrightarrow> (\<Sum>w\<leftarrow>ws. 0.5 * v (X w ds half) + v (X w ds 3)) \<ge> of_int required - v Penalty"
  by (simp add: holds_def coverage_constraint_def eval_simps comp_def mult.commute)

lemma days_off_dict_fold:
  "fold (\<lambda>worker d. d(worker \<mapsto> f worker)) ws m w
   = (if w \<in> set ws then Some (f w) else m w)"
  by (induction ws arbitrary: m) auto

lemma days_off_dict_lookup:
  "w \<in> set (workers req) \<Longrightarrow> days_off_dict req w = Some (days_off_input req w)"
  by (simp add: days_off_dict_def days_off_dict_fold)

lemma holds_days_off:
  "w \<in> set (workers req) \<Longrightarrow>
   holds v (days_off_constraint fmt req w)
   \<longleftrightarrow> (\<Sum>day\<leftarrow>day_range req. v (X w (date_str fmt req day) 0)) = of_int (days_off_input req w)"
  by (simp add: holds_def days_off_constraint_def eval_simps comp_def days_off_dict_lookup)

lemma set_constraints_build_model:
  "set (constraints (build_model fmt req)) =
     (\<Union>day\<in>set (day_range req).
        (\<lambda>w. one_shift_constraint w (date_str fmt req day)) ` set (workers req)
        \<union> {hard_full_and_first (workers req) (n_workers_per_day req) (date_str fmt req day),
            hard_full_and_second (workers req) (n_workers_per_day req) (date_str fmt req day)})
     \<union> days_off_constraint fmt req ` set (workers req)"
  by (auto simp: build_model_def day_constraints_def Let_def)

lemma exp_vars_lp_var: "exp_vars (lp_var x) = [x]"
  by (simp add: exp_vars_def lp_var_def)
lemma exp_vars_lp_const: "exp_vars (lp_const c) = []"
  by (simp add: exp_vars_def lp_const_def)
lemma exp_vars_lp_add: "exp_vars (lp_add a b) = exp_vars a @ exp_vars b"
  by (simp add: exp_vars_def lp_add_def)
lemma exp_vars_lp_scale: "exp_vars (lp_scale e k) = exp_vars e"
  by (simp add: exp_vars_def lp_scale_def comp_def case_prod_beta)
lemma exp_vars_lp_neg: "exp_vars (lp_neg e) = exp_vars e"
  by (simp add: lp_neg_def exp_vars_lp_scale)
lemma exp_vars_lp_sub: "exp_vars (lp_sub a b) = exp_vars a @ exp_vars b"
  by (simp add: lp_sub_def exp_vars_lp_add exp_vars_lp_neg)
lemma exp_vars_fold:
  "exp_vars (fold (\<lambda>e acc. lp_add acc e) es a) = exp_vars a @ concat (map exp_vars es)"
  by (induction es arbitrary: a) (simp_all add: exp_vars_lp_add)
lemma exp_vars_lpSum: "exp_vars (lpSum es) = concat (map exp_vars es)"
  by (simp add: lpSum_def exp_vars_fold exp_vars_lp_const)

lemmas exp_vars_simps = exp_vars_lp_var exp_vars_lp_const exp_vars_lp_add exp_vars_lp_scale
  exp_vars_lp_neg exp_vars_lp_sub exp_vars_lpSum

lemma set_problem_vars_build_model:
  "set (problem_vars (build_model fmt req)) =
     insert Penalty
       {X w (date_str fmt req day) s | w day s.
          w \<in> set (workers req) \<and> day \<in> set (day_range req) \<and> s \<in> set shift_types}"
  apply (simp add: problem_vars_def build_model_def day_constraints_def Let_def exp_vars_simps
      one_shift_constraint_def hard_full_and_first_def hard_full_and_second_def coverage_constraint_def
      days_off_constraint_def comp_def shift_types_def)
  apply (auto simp: )
  done

lemma continuous_vars_build_model:
  "{x \<in> set (problem_vars (build_model fmt req)). var_cat x = Continuous} = {Penalty}"
  by (auto simp: set_problem_vars_build_model)

lemma day_range_mem: "day \<in> set (day_range req) \<longleftrightarrow> int day < n_days req"
  by (auto simp: day_range_def)

text \<open>
  C3: for every day of the range the model contains the two coverage constraints: the
  sum over the workers of half the first-half (second-half) indicator plus the full-day
  indicator is at least the required staffing minus the penalty. The penalty is the
  only continuous variable of the whole model, bounded below by 0 and unbounded above,
  and the objective, maximised, is its negation.
\<close>

theorem coverage_constraints_shared_penalty:
  assumes "day \<in> set (day_range req)"
  shows "hard_full_and_first (workers req) (n_workers_per_day req) (date_str fmt req day)
           \<in> set (constraints (build_model fmt req))
       \<and> hard_full_and_second (workers req) (n_workers_per_day req) (date_str fmt req day)
           \<in> set (constraints (build_model fmt req))
       \<and> (\<forall>v. holds v (hard_full_and_first (workers req) (n_workers_per_day req) (date_str fmt req day))
            = ((\<Sum>w\<leftarrow>workers req. 0.5 * v (X w (date_str fmt req day) 1)
                                      + 1 * v (X w (date_str fmt req day) 3))
                 \<ge> of_int (n_workers_per_day req) - v Penalty))
       \<and> (\<forall>v. holds v (hard_full_and_second (workers req) (n_workers_per_day req) (date_str fmt req day))
            = ((\<Sum>w\<leftarrow>workers req. 0.5 * v (X w (date_str fmt req day) 2)
                                      + 1 * v (X w (date_str fmt req day) 3))
                 \<ge> of_int (n_workers_per_day req) - v Penalty))
       \<and> {x \<in> set (problem_vars (build_model fmt req)). var_cat x = Continuous} = {Penalty}
       \<and> var_low_bound Penalty = Some 0 \<and> var_up_bound Penalty = None
       \<and> p_sense (build_model fmt req) = LpMaximize
       \<and> (\<forall>v. eval_exp v (objective (build_model fmt req)) = - v Penalty)"
proof -
  have m: "hard_full_and_first (workers req) (n_workers_per_day req) (date_str fmt req day)
           \<in> set (constraints (build_model fmt req))"
     "hard_full_and_second (workers req) (n_workers_per_day req) (date_str fmt req day)
           \<in> set (constraints (build_model fmt req))"
    using assms by (auto simp: set_constraints_build_model)
  have o: "p_sense (build_model fmt req) = LpMaximize"
     "\<forall>v. eval_exp v (objective (build_model fmt req)) = - v Penalty"
    by (simp_all add: build_model_def eval_simps)
  show ?thesis
    using m o continuous_vars_build_model [of fmt req]
    by (simp add: hard_full_and_first_def hard_full_and_second_def holds_coverage)
qed

lemma date_str_default_0: "date_str strftime_ymd req_default 0 = ''2023-08-01''"
  by (simp add: date_str_def req_default_def strftime_ymd_def ord2ymd_def Let_def
      days_before_month_def days_in_month_def digit_char_def)

lemma workers_default: "workers req_default = [''A'', ''B'', ''C'', ''D'', ''E'']"
  by (simp add: workers_def req_default_def parse_workers_def strip_def lstrip_def rstrip_def
      is_space_def)

theorem coverage_constraints_shared_penalty_witness:
  "0 \<in> set (day_range req_default)
   \<and> hard_full_and_first [''A'', ''B'', ''C'', ''D'', ''E''] 3 ''2023-08-01''
       \<in> set (constraints (build_model strftime_ymd req_default))
   \<and> hard_full_and_second [''A'', ''B'', ''C'', ''D'', ''E''] 3 ''2023-08-01''
       \<in> set (constraints (build_model strftime_ymd req_default))
   \<and> {x \<in> set (problem_vars (build_model strftime_ymd req_default)). var_cat x = Continuous}
       = {Penalty}"
proof -
  have d: "0 \<in> set (day_range req_default)"
    by (simp add: day_range_def n_days_def req_default_def)
  have n: "n_workers_per_day req_default = 3"
    by (simp add: req_default_def)
  from coverage_constraints_shared_penalty [OF d, of strftime_ymd] d
  show ?thesis
    unfolding date_str_default_0 workers_default n by blast
qed

subsection \<open>The decoder, cell by cell\<close>

lemma row_set_cell: "set_cell tb w ds l w' = None \<longleftrightarrow> tb w' = None"
  by (simp add: set_cell_def split: option.splits)

lemma cell_set_cell:
  "cell (set_cell tb w ds l) w' ds'
   = (if w' = w \<and> ds' = ds \<and> tb w \<noteq> None then Some l else cell tb w' ds')"
  by (auto simp: set_cell_def cell_def split: option.splits)

lemma row_decode_shift: "decode_shift vals ds w s tb w' = None \<longleftrightarrow> tb w' = None"
  by (simp add: decode_shift_def row_set_cell)

lemma row_fold_decode_shift:
  "fold (decode_shift vals ds w) ss tb w' = None \<longleftrightarrow> tb w' = None"
  by (induction ss arbitrary: tb) (simp_all add: row_decode_shift)

lemma row_decode_worker: "decode_worker vals ds w tb w' = None \<longleftrightarrow> tb w' = None"
  by (simp add: decode_worker_def row_fold_decode_shift)

lemma row_decode_day: "decode_day vals ws ds tb w' = None \<longleftrightarrow> tb w' = None"
  unfolding decode_day_def by (induction ws arbitrary: tb) (simp_all add: row_decode_worker)

lemma row_fold_decode_day:
  "fold (decode_day vals ws) dss tb w' = None \<longleftrightarrow> tb w' = None"
  by (induction dss arbitrary: tb) (simp_all add: row_decode_day)

lemma cell_fold_decode_shift:
  "cell (fold (decode_shift vals ds w) ss tb) w' ds'
   = (if w' = w \<and> ds' = ds \<and> tb w \<noteq> None \<and> selected vals w ds ss \<noteq> []
      then Some (the (shift_mapping (last (selected vals w ds ss))))
      else cell tb w' ds')"
proof (induction ss arbitrary: tb)
  case Nil
  then show ?case by (simp add: selected_def)
next
  case (Cons s ss)
  show ?case
    by (simp add: Cons.IH row_decode_shift)
       (auto simp: decode_shift_def cell_set_cell selected_def)
qed

lemma cell_decode_worker:
  "cell (decode_worker vals ds w tb) w' ds'
   = (if w' = w \<and> ds' = ds \<and> tb w \<noteq> None \<and> selected vals w ds shift_types \<noteq> []
      then Some (final_label vals w ds)
      else cell tb w' ds')"
  by (auto simp: decode_worker_def cell_fold_decode_shift final_label_def split: list.splits)

lemma cell_decode_day:
  "cell (decode_day vals ws ds tb) w' ds'
   = (if w' \<in> set ws \<and> ds' = ds \<and> tb w' \<noteq> None \<and> selected vals w' ds shift_types \<noteq> []
      then Some (final_label vals w' ds)
      else cell tb w' ds')"
  unfolding decode_day_def
proof (induction ws arbitrary: tb)
  case Nil
  then show ?case by simp
next
  case (Cons w ws)
  show ?case
    by (simp add: Cons.IH row_decode_worker) (auto simp: cell_decode_worker)
qed

lemma cell_fold_decode_day:
  "cell (fold (decode_day vals ws) dss tb) w' ds'
   = (if w' \<in> set ws \<and> ds' \<in> set dss \<and> tb w' \<noteq> None \<and> selected vals w' ds' shift_types \<noteq> []
      then Some (final_label vals w' ds')
      else cell tb w' ds')"
proof (induction dss arbitrary: tb)
  case Nil
  then show ?case by simp
next
  case (Cons ds dss)
  show ?case
    by (simp add: Cons.IH row_decode_day) (auto simp: cell_decode_day)
qed

lemma empty_row_fold:
  "fold (\<lambda>ds row. row(ds \<mapsto> v)) dss r ds' = (if ds' \<in> set dss then Some v else r ds')"
  by (induction dss arbitrary: r) auto

lemma init_data_fold:
  "fold (\<lambda>worker tb. tb(worker \<mapsto> r)) ws t w = (if w \<in> set ws then Some r else t w)"
  by (induction ws arbitrary: t) auto

lemma row_init_data: "init_data ws dss w = (if w \<in> set ws then Some (empty_row dss) else None)"
  by (simp add: init_data_def init_data_fold)

lemma cell_init_data:
  "cell (init_data ws dss) w ds = (if w \<in> set ws \<and> ds \<in> set dss then Some [] else None)"
  by (simp add: cell_def row_init_data empty_row_def empty_row_fold)

lemma final_label_none: "selected vals w ds shift_types = [] \<Longrightarrow> final_label vals w ds = []"
  by (simp add: final_label_def)

lemma cell_decode:
  "cell (decode fmt req vals) w ds
   = (if w \<in> set (workers req) \<and> ds \<in> date_str fmt req ` set (day_range req)
      then Some (final_label vals w ds) else None)"
  by (auto simp: decode_def Let_def cell_fold_decode_day cell_init_data row_init_data
      final_label_none)

lemma row_decode: "decode fmt req vals w = None \<longleftrightarrow> w \<notin> set (workers req)"
  by (simp add: decode_def Let_def row_fold_decode_day row_init_data)

subsection \<open>Feasible and optimal solutions of the model\<close>

lemma final_label_chain:
  "final_label vals w ds =
     (if truthy (vals (X w ds 3)) then ''Full Day''
      else if truthy (vals (X w ds 2)) then ''Second Half''
      else if truthy (vals (X w ds 1)) then ''First Half''
      else if truthy (vals (X w ds 0)) then ''Off''
      else [])"
  by (simp add: final_label_def selected_def shift_types_def shift_mapping_def)

lemma in_domain_Penalty: "in_domain Penalty r \<longleftrightarrow> 0 \<le> r"
  by (simp add: in_domain_def)

lemma in_domain_X: "in_domain (X w d s) r \<longleftrightarrow> r = 0 \<or> r = 1"
  by (auto simp: in_domain_def)

lemma value_ok_Penalty:
  "(case vals Penalty of None \<Rightarrow> False | Some r \<Rightarrow> in_domain Penalty r)
   \<longleftrightarrow> (\<exists>p. vals Penalty = Some p \<and> 0 \<le> p)"
  by (simp add: in_domain_Penalty split: option.splits)

lemma value_ok_X:
  "(case vals (X w d s) of None \<Rightarrow> False | Some r \<Rightarrow> in_domain (X w d s) r)
   \<longleftrightarrow> (vals (X w d s) = Some 0 \<or> vals (X w d s) = Some 1)"
  by (auto simp: in_domain_X split: option.splits)

lemma feasible_build_model_iff:
  "feasible (build_model fmt req) vals \<longleftrightarrow>
     (\<exists>p. vals Penalty = Some p \<and> 0 \<le> p)
     \<and> (\<forall>w\<in>set (workers req). \<forall>day\<in>set (day_range req). \<forall>s\<in>set shift_types.
           vals (X w (date_str fmt req day) s) = Some 0
           \<or> vals (X w (date_str fmt req day) s) = Some 1)
     \<and> (\<forall>w\<in>set (workers req). \<forall>day\<in>set (day_range req).
           val vals (X w (date_str fmt req day) 0) + val vals (X w (date_str fmt req day) 1)
           + val vals (X w (date_str fmt req day) 2) + val vals (X w (date_str fmt req day) 3) = 1)
     \<and> (\<forall>day\<in>set (day_range req).
           (\<Sum>w\<leftarrow>workers req. 0.5 * val vals (X w (date_str fmt req day) 1)
                                 + val vals (X w (date_str fmt req day) 3))
             \<ge> of_int (n_workers_per_day req) - val vals Penalty
         \<and> (\<Sum>w\<leftarrow>workers req. 0.5 * val vals (X w (date_str fmt req day) 2)
                                 + val vals (X w (date_str fmt req day) 3))
             \<ge> of_int (n_workers_per_day req) - val vals Penalty)
     \<and> (\<forall>w\<in>set (workers req).
           (\<Sum>day\<leftarrow>day_range req. val vals (X w (date_str fmt req day) 0))
             = of_int (days_off_input req w))"
  (is "?L \<longleftrightarrow> ?P \<and> ?B \<and> ?O \<and> ?C \<and> ?D")
proof -
  have dom: "list_all (\<lambda>x. case vals x of None \<Rightarrow> False | Some r \<Rightarrow> in_domain x r)
               (problem_vars (build_model fmt req)) \<longleftrightarrow> ?P \<and> ?B"
  proof -
    have "(\<forall>x\<in>{X w (date_str fmt req day) s | w day s.
              w \<in> set (workers req) \<and> day \<in> set (day_range req) \<and> s \<in> set shift_types}.
            case vals x of None \<Rightarrow> False | Some r \<Rightarrow> in_domain x r) \<longleftrightarrow> ?B"
      using value_ok_X [where vals = vals] by blast
    then show ?thesis
      unfolding list_all_iff set_problem_vars_build_model
      using value_ok_Penalty [where vals = vals] by simp
  qed
  have "list_all (holds (val vals)) (constraints (build_model fmt req)) \<longleftrightarrow>
      (\<forall>day\<in>set (day_range req).
         (\<forall>w\<in>set (workers req). holds (val vals) (one_shift_constraint w (date_str fmt req day)))
         \<and> holds (val vals)
             (hard_full_and_first (workers req) (n_workers_per_day req) (date_str fmt req day))
         \<and> holds (val vals)
             (hard_full_and_second (workers req) (n_workers_per_day req) (date_str fmt req day)))
      \<and> (\<forall>w\<in>set (workers req). holds (val vals) (days_off_constraint fmt req w))"
    unfolding list_all_iff set_constraints_build_model by blast
  also have "\<dots> \<longleftrightarrow> ?O \<and> ?C \<and> ?D"
    unfolding holds_one_shift hard_full_and_first_def hard_full_and_second_def holds_coverage
    using holds_days_off [of _ req "val vals" fmt] by blast
  finally have con:
    "list_all (holds (val vals)) (constraints (build_model fmt req)) \<longleftrightarrow> ?O \<and> ?C \<and> ?D" .
  show ?thesis
    unfolding feasible_def dom con by blast
qed

lemma truthy_Some: "truthy (Some r) \<longleftrightarrow> r \<noteq> 0"
  by (simp add: truthy_def)

lemma feasible_cell_values:
  assumes "feasible (build_model fmt req) vals"
    and "w \<in> set (workers req)" and "day \<in> set (day_range req)"
  shows "(\<forall>s\<in>set shift_types.
            vals (X w (date_str fmt req day) s) = Some 0 \<or> vals (X w (date_str fmt req day) s) = Some 1)
       \<and> val vals (X w (date_str fmt req day) 0) + val vals (X w (date_str fmt req day) 1)
         + val vals (X w (date_str fmt req day) 2) + val vals (X w (date_str fmt req day) 3) = 1"
  using assms unfolding feasible_build_model_iff by blast

lemma feasible_cell_one:
  assumes "feasible (build_model fmt req) vals"
    and "w \<in> set (workers req)" and "day \<in> set (day_range req)"
  shows "\<exists>s\<in>set shift_types.
           vals (X w (date_str fmt req day) s) = Some 1
           \<and> (\<forall>s'\<in>set shift_types. s' \<noteq> s \<longrightarrow> vals (X w (date_str fmt req day) s') = Some 0)"
proof -
  let ?x = "\<lambda>s. vals (X w (date_str fmt req day) s)"
  from feasible_cell_values [OF assms]
  have b: "?x 0 = Some 0 \<or> ?x 0 = Some 1" "?x 1 = Some 0 \<or> ?x 1 = Some 1"
    "?x 2 = Some 0 \<or> ?x 2 = Some 1" "?x 3 = Some 0 \<or> ?x 3 = Some 1"
    and s: "val vals (X w (date_str fmt req day) 0) + val vals (X w (date_str fmt req day) 1)
         + val vals (X w (date_str fmt req day) 2) + val vals (X w (date_str fmt req day) 3) = 1"
    by (simp_all add: shift_types_def)
  from b s show ?thesis
    by (auto simp: val_def shift_types_def)
qed

lemma feasible_final_label:
  assumes "feasible (build_model fmt req) vals"
    and "w \<in> set (workers req)" and "day \<in> set (day_range req)"
  shows "final_label vals w (date_str fmt req day)
           \<in> {''Off'', ''First Half'', ''Second Half'', ''Full Day''}
       \<and> (final_label vals w (date_str fmt req day) = ''Off''
            \<longleftrightarrow> val vals (X w (date_str fmt req day) 0) = 1)
       \<and> (val vals (X w (date_str fmt req day) 0) = 0 \<or> val vals (X w (date_str fmt req day) 0) = 1)"
  using feasible_cell_one [OF assms]
  by (auto simp: final_label_chain shift_types_def truthy_Some val_def)

lemma count_binary:
  "\<forall>x\<in>set xs. f x = 0 \<or> f x = (1::real) \<Longrightarrow>
   real (length (filter (\<lambda>x. f x = 1) xs)) = (\<Sum>x\<leftarrow>xs. f x)"
  by (induction xs) auto

lemma optimal_feasible: "optimal m vals \<Longrightarrow> feasible m vals"
  by (simp add: optimal_def)

lemma sound_run_feasible:
  assumes "solver_sound solve (build_model fmt req)" and "data (run fmt solve req) = Some df"
  shows "feasible (build_model fmt req) (snd (solve (build_model fmt req)))"
  using assms run_data_Some [OF assms(2)] by (simp add: solver_sound_def optimal_feasible)

lemma objective_build_model:
  "objective_value (build_model fmt req) vals = - val vals Penalty"
  "p_sense (build_model fmt req) = LpMaximize"
  by (simp_all add: objective_value_def build_model_def eval_simps)

lemma feasible_penalty_nonneg:
  "feasible (build_model fmt req) vals \<Longrightarrow> 0 \<le> val vals Penalty"
  unfolding feasible_build_model_iff by (auto simp: val_def)

lemma optimal_build_model_iff:
  "optimal (build_model fmt req) vals \<longleftrightarrow>
     feasible (build_model fmt req) vals
     \<and> (\<forall>vals'. feasible (build_model fmt req) vals' \<longrightarrow> val vals Penalty \<le> val vals' Penalty)"
  by (simp add: optimal_def objective_build_model better_def)

lemma optimal_penalty_zero:
  assumes "feasible (build_model fmt req) vals" and "vals Penalty = Some 0"
  shows "optimal (build_model fmt req) vals"
  unfolding optimal_build_model_iff
  using assms feasible_penalty_nonneg [of fmt req] by (simp add: val_def)

lemma workers_scenario: "workers req_scenario = [''A'', ''B'', ''C'', ''D'', ''E'']"
  by (simp add: workers_def req_scenario_def parse_workers_def strip_def lstrip_def rstrip_def
      is_space_def)

lemma day_range_scenario: "day_range req_scenario = [0, 1, 2, 3, 4]"
  by (simp add: day_range_def n_days_def req_scenario_def upt_rec)

lemma date_str_scenario:
  "date_str strftime_ymd req_scenario 0 = ''2023-08-01''"
  "date_str strftime_ymd req_scenario (Suc 0) = ''2023-08-02''"
  "date_str strftime_ymd req_scenario 2 = ''2023-08-03''"
  "date_str strftime_ymd req_scenario 3 = ''2023-08-04''"
  "date_str strftime_ymd req_scenario 4 = ''2023-08-05''"
  by (simp_all add: date_str_def req_scenario_def strftime_ymd_def ord2ymd_def Let_def
      days_before_month_def days_in_month_def digit_char_def)

lemma val_vals_of_schedule:
  "val (vals_of_schedule sched p) Penalty = p"
  "val (vals_of_schedule sched p) (X w ds s) = (if sched w ds = s then 1 else 0)"
  by (simp_all add: val_def vals_of_schedule_def)

lemma sum_list_indicator:
  "(\<Sum>x\<leftarrow>xs. if P x then (1::real) else 0) = real (length (filter P xs))"
  by (induction xs) auto

lemma feasible_vals_of_schedule:
  "feasible (build_model fmt req) (vals_of_schedule sched p) \<longleftrightarrow>
     0 \<le> p
     \<and> (\<forall>w\<in>set (workers req). \<forall>day\<in>set (day_range req).
           sched w (date_str fmt req day) \<in> set shift_types)
     \<and> (\<forall>day\<in>set (day_range req).
           of_int (n_workers_per_day req) - p
             \<le> (\<Sum>w\<leftarrow>workers req. (if sched w (date_str fmt req day) = 1 then 0.5 else 0)
                                   + (if sched w (date_str fmt req day) = 3 then 1 else 0))
         \<and> of_int (n_workers_per_day req) - p
             \<le> (\<Sum>w\<leftarrow>workers req. (if sched w (date_str fmt req day) = 2 then 0.5 else 0)
                                   + (if sched w (date_str fmt req day) = 3 then 1 else 0)))
     \<and> (\<forall>w\<in>set (workers req).
           int (length (filter (\<lambda>day. sched w (date_str fmt req day) = 0) (day_range req)))
             = days_off_input req w)"
  (is "?L \<longleftrightarrow> ?P \<and> ?S \<and> ?C \<and> ?D")
proof -
  let ?v = "vals_of_schedule sched p"
  have p: "(\<exists>q. ?v Penalty = Some q \<and> 0 \<le> q) \<longleftrightarrow> ?P"
    by (simp add: vals_of_schedule_def)
  have b: "(\<forall>w\<in>set (workers req). \<forall>day\<in>set (day_range req). \<forall>s\<in>set shift_types.
           ?v (X w (date_str fmt req day) s) = Some 0
           \<or> ?v (X w (date_str fmt req day) s) = Some 1)"
    by (simp add: vals_of_schedule_def)
  have o: "(val ?v (X w ds 0) + val ?v (X w ds 1) + val ?v (X w ds 2) + val ?v (X w ds 3) = 1)
      \<longleftrightarrow> sched w ds \<in> set shift_types" for w ds
    by (auto simp: val_vals_of_schedule shift_types_def)
  have c: "(\<Sum>w\<leftarrow>workers req. 0.5 * val ?v (X w ds h) + val ?v (X w ds 3))
      = (\<Sum>w\<leftarrow>workers req. (if sched w ds = h then 0.5 else 0) + (if sched w ds = 3 then 1 else 0))"
    for ds h
    by (intro arg_cong [where f = sum_list] map_cong) (auto simp: val_vals_of_schedule)
  have d: "((\<Sum>day\<leftarrow>day_range req. val ?v (X w (date_str fmt req day) 0))
             = of_int (days_off_input req w))
      \<longleftrightarrow> int (length (filter (\<lambda>day. sched w (date_str fmt req day) = 0) (day_range req)))
             = days_off_input req w" for w
  proof -
    have "(\<Sum>day\<leftarrow>day_range req. val ?v (X w (date_str fmt req day) 0))
        = real (length (filter (\<lambda>day. sched w (date_str fmt req day) = 0) (day_range req)))"
      by (simp add: val_vals_of_schedule sum_list_indicator)
    moreover have "real n = of_int (int n)" for n by simp
    ultimately show ?thesis by (metis of_int_eq_iff)
  qed
  show ?thesis
    unfolding feasible_build_model_iff p o c d val_vals_of_schedule(1) using b by blast
qed

lemma sched_scenario_values:
  "map (\<lambda>w. map (sched_scenario w) [''2023-08-01'', ''2023-08-02'', ''2023-08-03'', ''2023-08-04'', ''2023-08-05''])
     [''A'', ''B'', ''C'', ''D'', ''E'']
   = [[0, 3, 3, 3, 3], [3, 0, 3, 3, 3], [3, 3, 0, 3, 3], [3, 3, 3, 0, 3], [3, 3, 3, 3, 0]]"
  by (simp add: sched_scenario_def)

lemmas sched_scenario_cells = sched_scenario_values [simplified]

lemma fields_scenario: "days_off_input req_scenario w = 1" "n_workers_per_day req_scenario = 3"
  by (simp_all add: req_scenario_def)

lemma coverage_scenario: "\<forall>day\<in>set (day_range req_scenario).
           of_int (n_workers_per_day req_scenario) - (0::real)
             \<le> (\<Sum>w\<leftarrow>workers req_scenario.
                  (if sched_scenario w (date_str strftime_ymd req_scenario day) = 1 then 0.5 else 0)
                  + (if sched_scenario w (date_str strftime_ymd req_scenario day) = 3 then 1 else 0))
         \<and> of_int (n_workers_per_day req_scenario) - 0
             \<le> (\<Sum>w\<leftarrow>workers req_scenario.
                  (if sched_scenario w (date_str strftime_ymd req_scenario day) = 2 then 0.5 else 0)
                  + (if sched_scenario w (date_str strftime_ymd req_scenario day) = 3 then 1 else (0::real)))"
    unfolding workers_scenario day_range_scenario
    by (simp add: date_str_scenario sched_scenario_cells fields_scenario)

lemma feasible_scenario: "feasible (build_model strftime_ymd req_scenario) vals_scenario"
proof -
  have s: "\<forall>w\<in>set (workers req_scenario). \<forall>day\<in>set (day_range req_scenario).
           sched_scenario w (date_str strftime_ymd req_scenario day) \<in> set shift_types"
    unfolding workers_scenario day_range_scenario
    by (simp add: date_str_scenario sched_scenario_cells shift_types_def)
  have d: "\<forall>w\<in>set (workers req_scenario).
           int (length (filter (\<lambda>day. sched_scenario w (date_str strftime_ymd req_scenario day) = 0)
                  (day_range req_scenario)))
             = days_off_input req_scenario w"
    unfolding workers_scenario day_range_scenario
    by (simp add: date_str_scenario sched_scenario_cells fields_scenario)
  show ?thesis
    unfolding vals_scenario_def feasible_vals_of_schedule using s coverage_scenario d by simp
qed

lemma optimal_scenario: "optimal (build_model strftime_ymd req_scenario) vals_scenario"
  using feasible_scenario
  by (rule optimal_penalty_zero) (simp add: vals_scenario_def vals_of_schedule_def)

lemma reaches_scenario: "reaches_model req_scenario"
  by (simp add: reaches_model_def workers_scenario n_days_def)
     (simp add: req_scenario_def)

lemma sound_scenario:
  "solver_sound (solver_returning vals_scenario) (build_model strftime_ymd req_scenario)"
  by (simp add: solver_sound_def solver_returning_def optimal_scenario)

lemma run_scenario:
  "data (run strftime_ymd (solver_returning vals_scenario) req_scenario)
   = Some (decode strftime_ymd req_scenario vals_scenario)"
  by (simp add: run_reaches [OF reaches_scenario] solve_and_show_fields solver_returning_def)

subsection \<open>One shift per worker and day\<close>

text \<open>
  C1: for every worker and every day of the range the model contains the constraint
  that the four shift variables of the cell sum to 1; and when the backend is sound,
  every cell of a table the run produces carries one of the four labels, none is
  left empty.
\<close>

theorem exactly_one_shift:
  assumes "w \<in> set (workers req)" and "day \<in> set (day_range req)"
  shows "one_shift_constraint w (date_str fmt req day) \<in> set (constraints (build_model fmt req))
       \<and> (\<forall>v. holds v (one_shift_constraint w (date_str fmt req day))
              = (v (X w (date_str fmt req day) 0) + v (X w (date_str fmt req day) 1)
                 + v (X w (date_str fmt req day) 2) + v (X w (date_str fmt req day) 3) = 1))
       \<and> (solver_sound solve (build_model fmt req) \<longrightarrow>
            (\<forall>df. data (run fmt solve req) = Some df \<longrightarrow>
               cell df w (date_str fmt req day)
                 \<in> {Some ''Off'', Some ''First Half'', Some ''Second Half'', Some ''Full Day''}))"
proof -
  have m: "one_shift_constraint w (date_str fmt req day) \<in> set (constraints (build_model fmt req))"
    using assms by (auto simp: set_constraints_build_model)
  have d: "cell df w (date_str fmt req day)
             \<in> {Some ''Off'', Some ''First Half'', Some ''Second Half'', Some ''Full Day''}"
    if s: "solver_sound solve (build_model fmt req)" and r: "data (run fmt solve req) = Some df"
    for df
  proof -
    let ?vals = "snd (solve (build_model fmt req))"
    have "df = decode fmt req ?vals" using run_data_Some [OF r] by simp
    then have "cell df w (date_str fmt req day) = Some (final_label ?vals w (date_str fmt req day))"
      using assms by (simp add: cell_decode)
    then show ?thesis
      using feasible_final_label [OF sound_run_feasible [OF s r] assms] by auto
  qed
  from m d show ?thesis by (simp add: holds_one_shift)
qed

theorem exactly_one_shift_witness:
  "''A'' \<in> set (workers req_scenario) \<and> 0 \<in> set (day_range req_scenario)
   \<and> date_str strftime_ymd req_scenario 0 = ''2023-08-01''
   \<and> one_shift_constraint ''A'' ''2023-08-01''
       \<in> set (constraints (build_model strftime_ymd req_scenario))
   \<and> solver_sound (solver_returning vals_scenario) (build_model strftime_ymd req_scenario)
   \<and> data (run strftime_ymd (solver_returning vals_scenario) req_scenario)
       = Some (decode strftime_ymd req_scenario vals_scenario)
   \<and> cell (decode strftime_ymd req_scenario vals_scenario) ''A'' ''2023-08-01''
       \<in> {Some ''Off'', Some ''First Half'', Some ''Second Half'', Some ''Full Day''}"
proof -
  have w: "''A'' \<in> set (workers req_scenario)" by (simp add: workers_scenario)
  have d: "0 \<in> set (day_range req_scenario)" by (simp add: day_range_scenario)
  note t = exactly_one_shift [OF w d, of strftime_ymd "solver_returning vals_scenario",
      unfolded date_str_scenario]
  from t have "one_shift_constraint ''A'' ''2023-08-01''
       \<in> set (constraints (build_model strftime_ymd req_scenario))" by blast
  moreover from t sound_scenario run_scenario
  have "cell (decode strftime_ymd req_scenario vals_scenario) ''A'' ''2023-08-01''
       \<in> {Some ''Off'', Some ''First Half'', Some ''Second Half'', Some ''Full Day''}" by blast
  ultimately show ?thesis
    using w d sound_scenario run_scenario date_str_scenario(1) by blast
qed

subsection \<open>The days off of a worker\<close>

text \<open>
  C2: when the backend is sound and the run produces a table, the number of days of the
  range on which a worker's cell is "Off" equals the days off requested for the worker;
  the model holds the quota as an equality constraint.
\<close>

theorem days_off_exact:
  assumes "solver_sound solve (build_model fmt req)" and "data (run fmt solve req) = Some df"
    and "w \<in> set (workers req)"
  shows "int (length (filter (\<lambda>day. cell df w (date_str fmt req day) = Some ''Off'') (day_range req)))
           = days_off_input req w
       \<and> days_off_constraint fmt req w \<in> set (constraints (build_model fmt req))
       \<and> c_sense (days_off_constraint fmt req w) = EQ
       \<and> (\<forall>v. holds v (days_off_constraint fmt req w)
              = ((\<Sum>day\<leftarrow>day_range req. v (X w (date_str fmt req day) 0))
                  = of_int (days_off_input req w)))"
proof -
  let ?vals = "snd (solve (build_model fmt req))"
  let ?x = "\<lambda>day. val ?vals (X w (date_str fmt req day) 0)"
  have f: "feasible (build_model fmt req) ?vals"
    using assms(1,2) by (rule sound_run_feasible)
  have df: "df = decode fmt req ?vals" using run_data_Some [OF assms(2)] by simp
  have l: "cell df w (date_str fmt req day) = Some ''Off'' \<longleftrightarrow> ?x day = 1"
    if "day \<in> set (day_range req)" for day
    using feasible_final_label [OF f assms(3) that] that assms(3) by (simp add: df cell_decode)
  then have "filter (\<lambda>day. cell df w (date_str fmt req day) = Some ''Off'') (day_range req)
      = filter (\<lambda>day. ?x day = 1) (day_range req)"
    by (intro filter_cong) auto
  moreover have "real (length (filter (\<lambda>day. ?x day = 1) (day_range req)))
      = (\<Sum>day\<leftarrow>day_range req. ?x day)"
    using feasible_final_label [OF f assms(3)] by (intro count_binary) blast
  moreover have "(\<Sum>day\<leftarrow>day_range req. ?x day) = of_int (days_off_input req w)"
    using f assms(3) unfolding feasible_build_model_iff by blast
  ultimately have "real (length (filter (\<lambda>day. cell df w (date_str fmt req day) = Some ''Off'')
      (day_range req))) = of_int (days_off_input req w)"
    by simp
  then have c: "int (length (filter (\<lambda>day. cell df w (date_str fmt req day) = Some ''Off'')
      (day_range req))) = days_off_input req w"
    by linarith
  have m: "days_off_constraint fmt req w \<in> set (constraints (build_model fmt req))"
    using assms(3) by (auto simp: set_constraints_build_model)
  have e: "c_sense (days_off_constraint fmt req w) = EQ"
    by (simp add: days_off_constraint_def)
  from c m e show ?thesis
    using holds_days_off [OF assms(3)] by simp
qed

theorem days_off_exact_witness:
  "solver_sound (solver_returning vals_scenario) (build_model strftime_ymd req_scenario)
   \<and> data (run strftime_ymd (solver_returning vals_scenario) req_scenario)
       = Some (decode strftime_ymd req_scenario vals_scenario)
   \<and> ''A'' \<in> set (workers req_scenario)
   \<and> int (length (filter
        (\<lambda>day. cell (decode strftime_ymd req_scenario vals_scenario) ''A''
                 (date_str strftime_ymd req_scenario day) = Some ''Off'')
        (day_range req_scenario))) = 1
   \<and> days_off_constraint strftime_ymd req_scenario ''A''
       \<in> set (constraints (build_model strftime_ymd req_scenario))"
proof -
  have w: "''A'' \<in> set (workers req_scenario)" by (simp add: workers_scenario)
  note t = days_off_exact [OF sound_scenario run_scenario w]
  from t have "int (length (filter
        (\<lambda>day. cell (decode strftime_ymd req_scenario vals_scenario) ''A''
                 (date_str strftime_ymd req_scenario day) = Some ''Off'')
        (day_range req_scenario))) = 1"
    by (simp add: fields_scenario)
  with t w sound_scenario run_scenario show ?thesis by blast
qed

subsection \<open>The label of a decoded cell\<close>

lemma date_str_mem:
  "day \<in> set (day_range req) \<Longrightarrow> date_str fmt req day \<in> date_str fmt req ` set (day_range req)"
  by simp

text \<open>
  C7, as the code has it: the cell of a worker and a day of the range gets the label of
  the last shift type, in the order Off, First Half, Second Half, Full Day, whose value
  is non-zero, and stays empty when all four values are zero or missing. On a solution
  of the model this is the label of the one shift type whose variable is 1.
\<close>

theorem decode_last_nonzero:
  assumes "w \<in> set (workers req)" and "day \<in> set (day_range req)"
  shows "cell (decode fmt req vals) w (date_str fmt req day)
           = Some (if truthy (vals (X w (date_str fmt req day) 3)) then ''Full Day''
                   else if truthy (vals (X w (date_str fmt req day) 2)) then ''Second Half''
                   else if truthy (vals (X w (date_str fmt req day) 1)) then ''First Half''
                   else if truthy (vals (X w (date_str fmt req day) 0)) then ''Off''
                   else [])
       \<and> (\<forall>s. truthy (vals (X w (date_str fmt req day) s))
              = (\<exists>r. vals (X w (date_str fmt req day) s) = Some r \<and> r \<noteq> 0))
       \<and> (feasible (build_model fmt req) vals \<longrightarrow>
            (\<exists>s\<in>set shift_types.
               vals (X w (date_str fmt req day) s) = Some 1
               \<and> cell (decode fmt req vals) w (date_str fmt req day) = shift_mapping s))"
proof -
  have c: "cell (decode fmt req vals) w (date_str fmt req day)
      = Some (final_label vals w (date_str fmt req day))"
    using assms by (simp add: cell_decode)
  have t: "truthy (vals x) = (\<exists>r. vals x = Some r \<and> r \<noteq> 0)" for x
    by (simp add: truthy_def split: option.splits)
  have f: "\<exists>s\<in>set shift_types.
               vals (X w (date_str fmt req day) s) = Some 1
               \<and> cell (decode fmt req vals) w (date_str fmt req day) = shift_mapping s"
    if "feasible (build_model fmt req) vals"
  proof -
    from feasible_cell_one [OF that assms] obtain s where
      s: "s \<in> set shift_types" "vals (X w (date_str fmt req day) s) = Some 1"
      "\<forall>s'\<in>set shift_types. s' \<noteq> s \<longrightarrow> vals (X w (date_str fmt req day) s') = Some 0"
      by blast
    from s(1) consider "s = 0" | "s = 1" | "s = 2" | "s = 3"
      by (auto simp: shift_types_def)
    then have "Some (final_label vals w (date_str fmt req day)) = shift_mapping s"
    proof cases
      case 1
      with s show ?thesis
        by (simp add: final_label_chain shift_types_def shift_mapping_def truthy_Some)
    next
      case 2
      with s show ?thesis
        by (simp add: final_label_chain shift_types_def shift_mapping_def truthy_Some)
    next
      case 3
      with s show ?thesis
        by (simp add: final_label_chain shift_types_def shift_mapping_def truthy_Some)
    next
      case 4
      with s show ?thesis
        by (simp add: final_label_chain shift_types_def shift_mapping_def truthy_Some)
    qed
    with s c show ?thesis by auto
  qed
  from c t f show ?thesis unfolding final_label_chain by blast
qed

lemma vals_tie_cells:
  "map (\<lambda>s. vals_tie (X ''A'' ''2023-08-01'' s)) [0, 1, 2, 3] = [Some 1, Some 0, Some 0, Some 1]"
  "map (\<lambda>s. vals_tie (X ''B'' ''2023-08-01'' s)) [0, 1, 2, 3] = [Some 0.75, Some 0.25, Some 0, Some 0]"
  by (simp_all add: vals_tie_def vals_scenario_def vals_of_schedule_def sched_scenario_def)

text \<open>
  The rule of the specification fails on the code: with Off and Full Day both 1 the
  decoder writes "Full Day", not the first selected "Off"; with Off at 0.75 and
  First Half at 0.25 the decoder writes "First Half", though 0.25 is below 0.5.
\<close>

theorem decode_first_selected_counterexample:
  "cell (decode strftime_ymd req_scenario vals_tie) ''A'' ''2023-08-01'' = Some ''Full Day''
   \<and> claimed_label vals_tie ''A'' ''2023-08-01'' = ''Off''
   \<and> cell (decode strftime_ymd req_scenario vals_tie) ''B'' ''2023-08-01'' = Some ''First Half''
   \<and> claimed_label vals_tie ''B'' ''2023-08-01'' = ''Off''"
proof -
  note v = vals_tie_cells [simplified]
  have d: "''2023-08-01'' \<in> date_str strftime_ymd req_scenario ` set (day_range req_scenario)"
    using date_str_mem [of 0 req_scenario strftime_ymd]
    by (simp add: day_range_scenario date_str_scenario)
  have "cell (decode strftime_ymd req_scenario vals_tie) ''A'' ''2023-08-01'' = Some ''Full Day''"
    using d by (simp add: cell_decode workers_scenario final_label_chain v truthy_Some)
  moreover
  have "cell (decode strftime_ymd req_scenario vals_tie) ''B'' ''2023-08-01'' = Some ''First Half''"
    using d by (simp add: cell_decode workers_scenario final_label_chain v truthy_Some)
  moreover
  have "claimed_label vals_tie ''A'' ''2023-08-01'' = ''Off''"
    "claimed_label vals_tie ''B'' ''2023-08-01'' = ''Off''"
    by (simp_all add: claimed_label_def shift_types_def v claimed_selected_def shift_mapping_def)
  ultimately show ?thesis by simp
qed

theorem decode_last_nonzero_witness:
  "''A'' \<in> set (workers req_scenario) \<and> 0 \<in> set (day_range req_scenario)
   \<and> date_str strftime_ymd req_scenario 0 = ''2023-08-01''
   \<and> vals_tie (X ''A'' ''2023-08-01'' 0) = Some 1
   \<and> vals_tie (X ''A'' ''2023-08-01'' 3) = Some 1
   \<and> cell (decode strftime_ymd req_scenario vals_tie) ''A'' ''2023-08-01'' = Some ''Full Day''
   \<and> feasible (build_model strftime_ymd req_scenario) vals_scenario
   \<and> cell (decode strftime_ymd req_scenario vals_scenario) ''A'' ''2023-08-01'' = Some ''Off''"
proof -
  note v = vals_tie_cells [simplified]
  have w: "''A'' \<in> set (workers req_scenario)" by (simp add: workers_scenario)
  have d: "0 \<in> set (day_range req_scenario)" by (simp add: day_range_scenario)
  note t = decode_last_nonzero [OF w d, of strftime_ymd, unfolded date_str_scenario]
  from t [of vals_tie]
  have a: "cell (decode strftime_ymd req_scenario vals_tie) ''A'' ''2023-08-01'' = Some ''Full Day''"
    by (simp add: v truthy_Some)
  from t [of vals_scenario]
  have b: "cell (decode strftime_ymd req_scenario vals_scenario) ''A'' ''2023-08-01'' = Some ''Off''"
    by (simp add: vals_scenario_def vals_of_schedule_def sched_scenario_def truthy_Some)
  from a b w d v feasible_scenario date_str_scenario(1) show ?thesis by simp
qed

subsection \<open>Quotas above the number of days\<close>

lemma sum_list_binary_le:
  "\<forall>x\<in>set xs. f x = 0 \<or> f x = (1::real) \<Longrightarrow> (\<Sum>x\<leftarrow>xs. f x) \<le> real (length xs)"
  by (induction xs) auto

lemma length_day_range: "\<not> end_date req < start_date req \<Longrightarrow> int (length (day_range req)) = n_days req"
  by (simp add: day_range_def n_days_def)

lemma days_off_bounded:
  assumes "feasible (build_model fmt req) vals" and "w \<in> set (workers req)"
  shows "0 \<le> days_off_input req w \<and> days_off_input req w \<le> int (length (day_range req))"
proof -
  let ?x = "\<lambda>day. val vals (X w (date_str fmt req day) 0)"
  have b: "\<forall>day\<in>set (day_range req). ?x day = 0 \<or> ?x day = 1"
    using feasible_final_label [OF assms] by blast
  have e: "(\<Sum>day\<leftarrow>day_range req. ?x day) = of_int (days_off_input req w)"
    using assms unfolding feasible_build_model_iff by blast
  have "(\<Sum>day\<leftarrow>day_range req. ?x day) \<le> real (length (day_range req))"
    using b by (rule sum_list_binary_le)
  moreover have "0 \<le> (\<Sum>day\<leftarrow>day_range req. ?x day)"
    using b by (intro sum_list_nonneg) auto
  ultimately show ?thesis using e by linarith
qed

lemma workers_over: "workers req_over = [''A'', ''B'', ''C'', ''D'', ''E'']"
  by (simp add: workers_def req_over_def parse_workers_def strip_def lstrip_def rstrip_def
      is_space_def)

lemma workers_three_days: "workers req_three_days = [''A'', ''B'', ''C'', ''D'', ''E'']"
  by (simp add: workers_def req_three_days_def parse_workers_def strip_def lstrip_def
      rstrip_def is_space_def)

lemma reaches_model_quota:
  "reaches_model req \<Longrightarrow> w \<in> set (workers req) \<Longrightarrow>
   0 \<le> days_off_input req w \<and> days_off_input req w \<le> n_days req"
  by (simp add: reaches_model_def list_all_iff)

text \<open>
  C5, as the code has it: a count of days off above the number of days of the range
  makes the days-off constraint unsatisfiable, so that no values satisfy the model and
  a sound backend cannot answer status 1; and the form keeps the case from the model.
  The days-off widget takes entries from 0 to the number of days only, so no run builds
  a model with such a count, and in every run that builds a model the count of every
  worker lies within the range.
\<close>

theorem days_off_within_range:
  assumes "w \<in> set (workers req)"
  shows "(model (run fmt solve req) \<noteq> None \<longrightarrow>
            0 \<le> days_off_input req w \<and> days_off_input req w \<le> n_days req)
       \<and> (\<not> end_date req < start_date req \<and> n_days req < days_off_input req w \<longrightarrow>
            (\<forall>vals. \<not> feasible (build_model fmt req) vals)
            \<and> (solver_sound solve (build_model fmt req) \<longrightarrow>
                  fst (solve (build_model fmt req)) \<noteq> 1)
            \<and> model (run fmt solve req) = None)"
proof -
  have a: "0 \<le> days_off_input req w \<and> days_off_input req w \<le> n_days req"
    if "model (run fmt solve req) \<noteq> None"
    using that assms reaches_model_quota [of req w] model_run_iff [of fmt solve req] by blast
  have b: "(\<forall>vals. \<not> feasible (build_model fmt req) vals)
            \<and> (solver_sound solve (build_model fmt req) \<longrightarrow>
                  fst (solve (build_model fmt req)) \<noteq> 1)
            \<and> model (run fmt solve req) = None"
    if d: "\<not> end_date req < start_date req" and q: "n_days req < days_off_input req w"
  proof -
    have inf: "\<not> feasible (build_model fmt req) vals" for vals
      using days_off_bounded [of fmt req vals w] assms q length_day_range [OF d]
      by auto
    have "fst (solve (build_model fmt req)) \<noteq> 1" if "solver_sound solve (build_model fmt req)"
      using that inf by (auto simp: solver_sound_def optimal_def)
    moreover have "\<not> reaches_model req"
      using reaches_model_quota [of req w] assms q by auto
    then have "model (run fmt solve req) = None"
      using model_run_iff [of fmt solve req] by simp
    ultimately show ?thesis using inf by blast
  qed
  from a b show ?thesis by blast
qed

text \<open>
  As the specification words it, a count above the range ends in the failure message.
  On the code it does not: on a range of three days the widget's default count of 5 is
  above the range and the widget of line 46 raises; 11 days off on a range of ten days
  is no entry of the form. Neither run comes to a solve, and neither shows
  "No solution found.".
\<close>

theorem over_quota_not_reported_counterexample:
  "n_days req_three_days = 3 \<and> days_off_input req_three_days ''A'' = 5
   \<and> ''A'' \<in> set (workers req_three_days)
   \<and> run strftime_ymd solver_infeasible req_three_days
       = \<lparr>shown = [Aborted (Raises StreamlitValueAboveMaxError)],
          model = None, status = None, data = None\<rparr>
   \<and> n_days req_over = 10 \<and> days_off_input req_over ''A'' = 11
   \<and> ''A'' \<in> set (workers req_over)
   \<and> run strftime_ymd solver_infeasible req_over
       = \<lparr>shown = [Aborted Not_receivable], model = None, status = None, data = None\<rparr>"
proof -
  have a: "n_days req_three_days = 3" "days_off_input req_three_days ''A'' = 5"
    "n_days req_over = 10" "days_off_input req_over ''A'' = 11"
    by (simp_all add: n_days_def req_three_days_def req_over_def)
  have w: "''A'' \<in> set (workers req_three_days)" "''A'' \<in> set (workers req_over)"
    by (simp_all add: workers_three_days workers_over)
  have c3: "3 \<le> n_workers req_three_days" "n_workers req_three_days \<le> 20"
    "1 \<le> n_workers_per_day req_three_days"
    "n_workers_per_day req_three_days \<le> n_workers req_three_days"
    "\<not> end_date req_three_days < start_date req_three_days"
    "int (length (workers req_three_days)) = n_workers req_three_days"
    by (simp_all add: workers_three_days) (simp_all add: req_three_days_def)
  have co: "3 \<le> n_workers req_over" "n_workers req_over \<le> 20"
    "1 \<le> n_workers_per_day req_over" "n_workers_per_day req_over \<le> n_workers req_over"
    "\<not> end_date req_over < start_date req_over"
    "int (length (workers req_over)) = n_workers req_over"
    by (simp_all add: workers_over) (simp_all add: req_over_def)
  have "days_off_widgets req_three_days [] (workers req_three_days)
      = Some (Raises StreamlitValueAboveMaxError)"
    by (simp add: workers_three_days number_input_def a)
  then have r3: "run strftime_ymd solver_infeasible req_three_days
      = abort (Raises StreamlitValueAboveMaxError)"
    using c3 by (simp add: run_at_checks)
  have "days_off_widgets req_over [] (workers req_over) = Some Not_receivable"
    by (simp add: workers_over number_input_def a)
  then have ro: "run strftime_ymd solver_infeasible req_over = abort Not_receivable"
    using co by (simp add: run_at_checks)
  from a w r3 ro show ?thesis by (simp add: abort_def)
qed

theorem days_off_within_range_witness:
  "''A'' \<in> set (workers req_scenario)
   \<and> model (run strftime_ymd solver_infeasible req_scenario) \<noteq> None
   \<and> days_off_input req_scenario ''A'' = 1 \<and> n_days req_scenario = 5
   \<and> ''A'' \<in> set (workers req_over)
   \<and> \<not> end_date req_over < start_date req_over
   \<and> n_days req_over = 10 \<and> days_off_input req_over ''A'' = 11
   \<and> (\<forall>vals. \<not> feasible (build_model strftime_ymd req_over) vals)
   \<and> model (run strftime_ymd solver_infeasible req_over) = None"
proof -
  have w: "''A'' \<in> set (workers req_scenario)" "''A'' \<in> set (workers req_over)"
    by (simp_all add: workers_scenario workers_over)
  have m: "model (run strftime_ymd solver_infeasible req_scenario) \<noteq> None"
    using model_run_iff [of strftime_ymd solver_infeasible req_scenario] reaches_scenario
    by blast
  have n: "days_off_input req_scenario ''A'' = 1" "n_days req_scenario = 5"
    "\<not> end_date req_over < start_date req_over"
    "n_days req_over = 10" "days_off_input req_over ''A'' = 11"
    by (simp_all add: n_days_def req_scenario_def req_over_def)
  have q: "\<not> end_date req_over < start_date req_over
      \<and> n_days req_over < days_off_input req_over ''A''"
    using n by simp
  from days_off_within_range [OF w(2), of strftime_ymd solver_infeasible] q
  have "(\<forall>vals. \<not> feasible (build_model strftime_ymd req_over) vals)
      \<and> model (run strftime_ymd solver_infeasible req_over) = None"
    by blast
  moreover from days_off_within_range [OF w(1), of strftime_ymd solver_infeasible] m
  have "0 \<le> days_off_input req_scenario ''A''
      \<and> days_off_input req_scenario ''A'' \<le> n_days req_scenario"
    by blast
  ultimately show ?thesis
    using w m n by blast
qed

subsection \<open>The optimal penalty and the required staffing\<close>

lemma required_update_same:
  "workers (req\<lparr>n_workers_per_day := r\<rparr>) = workers req"
  "day_range (req\<lparr>n_workers_per_day := r\<rparr>) = day_range req"
  "date_str fmt (req\<lparr>n_workers_per_day := r\<rparr>) = date_str fmt req"
  "days_off_input (req\<lparr>n_workers_per_day := r\<rparr>) = days_off_input req"
  by (simp_all add: workers_def day_range_def n_days_def date_str_def fun_eq_iff)

lemma sum_list_const_minus:
  "(\<Sum>x\<leftarrow>xs. 1 - f x) = real (length xs) - (\<Sum>x\<leftarrow>xs. f x)"
  by (induction xs) auto

lemma cell_coverage_le:
  assumes "feasible (build_model fmt req) vals"
    and "w \<in> set (workers req)" and "day \<in> set (day_range req)"
  shows "0.5 * val vals (X w (date_str fmt req day) 1) + val vals (X w (date_str fmt req day) 3)
           \<le> 1 - val vals (X w (date_str fmt req day) 0)
       \<and> 0.5 * val vals (X w (date_str fmt req day) 2) + val vals (X w (date_str fmt req day) 3)
           \<le> 1 - val vals (X w (date_str fmt req day) 0)"
proof -
  let ?x = "\<lambda>s. vals (X w (date_str fmt req day) s)"
  from feasible_cell_values [OF assms]
  have b: "?x 0 = Some 0 \<or> ?x 0 = Some 1" "?x 1 = Some 0 \<or> ?x 1 = Some 1"
    "?x 2 = Some 0 \<or> ?x 2 = Some 1" "?x 3 = Some 0 \<or> ?x 3 = Some 1"
    and s: "val vals (X w (date_str fmt req day) 0) + val vals (X w (date_str fmt req day) 1)
         + val vals (X w (date_str fmt req day) 2) + val vals (X w (date_str fmt req day) 3) = 1"
    by (simp_all add: shift_types_def)
  from b s show ?thesis
    by (auto simp: val_def)
qed

lemma penalty_lower_bound:
  assumes "feasible (build_model fmt req) vals" and "day \<in> set (day_range req)"
  shows "of_int (n_workers_per_day req) - real (length (workers req))
           + (\<Sum>w\<leftarrow>workers req. val vals (X w (date_str fmt req day) 0))
         \<le> val vals Penalty"
proof -
  let ?ds = "date_str fmt req day"
  have "(\<Sum>w\<leftarrow>workers req. 0.5 * val vals (X w ?ds 1) + val vals (X w ?ds 3))
      \<le> (\<Sum>w\<leftarrow>workers req. 1 - val vals (X w ?ds 0))"
    using cell_coverage_le [OF assms(1) _ assms(2)] by (intro sum_list_mono) blast
  moreover have "of_int (n_workers_per_day req) - val vals Penalty
      \<le> (\<Sum>w\<leftarrow>workers req. 0.5 * val vals (X w ?ds 1) + val vals (X w ?ds 3))"
    using assms unfolding feasible_build_model_iff by blast
  ultimately show ?thesis
    by (simp add: sum_list_const_minus)
qed

lemma optimal_scenario_all:
  "optimal (build_model strftime_ymd req_scenario_all) (vals_of_schedule sched_scenario 1)"
  unfolding optimal_build_model_iff
proof (intro conjI allI impI)
  have n: "n_workers_per_day req_scenario_all = 5"
    by (simp add: req_scenario_all_def)
  have s: "\<forall>w\<in>set (workers req_scenario). \<forall>day\<in>set (day_range req_scenario).
           sched_scenario w (date_str strftime_ymd req_scenario day) \<in> set shift_types"
    and d: "\<forall>w\<in>set (workers req_scenario).
           int (length (filter (\<lambda>day. sched_scenario w (date_str strftime_ymd req_scenario day) = 0)
                  (day_range req_scenario)))
             = days_off_input req_scenario w"
    using feasible_scenario unfolding vals_scenario_def feasible_vals_of_schedule by blast+
  have c: "\<forall>day\<in>set (day_range req_scenario).
           of_int 5 - (1::real)
             \<le> (\<Sum>w\<leftarrow>workers req_scenario.
                  (if sched_scenario w (date_str strftime_ymd req_scenario day) = 1 then 0.5 else 0)
                  + (if sched_scenario w (date_str strftime_ymd req_scenario day) = 3 then 1 else 0))
         \<and> of_int 5 - (1::real)
             \<le> (\<Sum>w\<leftarrow>workers req_scenario.
                  (if sched_scenario w (date_str strftime_ymd req_scenario day) = 2 then 0.5 else 0)
                  + (if sched_scenario w (date_str strftime_ymd req_scenario day) = 3 then 1 else (0::real)))"
    unfolding workers_scenario day_range_scenario
    by (simp add: date_str_scenario sched_scenario_cells)
  show "feasible (build_model strftime_ymd req_scenario_all) (vals_of_schedule sched_scenario 1)"
    unfolding feasible_vals_of_schedule req_scenario_all_def required_update_same
    using s c d by simp
next
  fix vals' assume f: "feasible (build_model strftime_ymd req_scenario_all) vals'"
  let ?x = "\<lambda>w ds. val vals' (X w ds 0)"
  have lb: "\<forall>day\<in>set (day_range req_scenario).
      5 - real (length (workers req_scenario))
        + (\<Sum>w\<leftarrow>workers req_scenario. ?x w (date_str strftime_ymd req_scenario day))
      \<le> val vals' Penalty"
    using penalty_lower_bound [OF f]
    by (simp add: req_scenario_all_def required_update_same)
  have q: "\<forall>w\<in>set (workers req_scenario).
      (\<Sum>day\<leftarrow>day_range req_scenario. ?x w (date_str strftime_ymd req_scenario day)) = 1"
    using f unfolding feasible_build_model_iff req_scenario_all_def required_update_same
    by (simp add: fields_scenario)
  from lb q have "1 \<le> val vals' Penalty"
    unfolding workers_scenario day_range_scenario
    by (simp add: date_str_scenario)
  then show "val (vals_of_schedule sched_scenario 1) Penalty \<le> val vals' Penalty"
    by (simp add: val_vals_of_schedule)
qed

text \<open>
  C6: of two requests that differ in the required staffing only, the one that requires
  more has an optimal penalty at least as large (and an optimal objective at most as
  large): the values of an optimal solution of the harder model satisfy the easier one.
\<close>

theorem penalty_monotone:
  assumes "optimal (build_model fmt req) vals"
    and "optimal (build_model fmt (req\<lparr>n_workers_per_day := r'\<rparr>)) vals'"
    and "n_workers_per_day req \<le> r'"
  shows "val vals Penalty \<le> val vals' Penalty
       \<and> objective_value (build_model fmt (req\<lparr>n_workers_per_day := r'\<rparr>)) vals'
           \<le> objective_value (build_model fmt req) vals"
proof -
  let ?req' = "req\<lparr>n_workers_per_day := r'\<rparr>"
  have same: "workers ?req' = workers req" "day_range ?req' = day_range req"
    "date_str fmt ?req' = date_str fmt req" "days_off_input ?req' = days_off_input req"
    by (simp_all add: workers_def day_range_def n_days_def date_str_def fun_eq_iff)
  have r: "real_of_int (n_workers_per_day req) \<le> real_of_int r'"
    using assms(3) by simp
  have f': "feasible (build_model fmt ?req') vals'"
    using assms(2) by (rule optimal_feasible)
  let ?cov = "\<lambda>h day. (\<Sum>w\<leftarrow>workers req. 0.5 * val vals' (X w (date_str fmt req day) h)
                                 + val vals' (X w (date_str fmt req day) 3))"
  have c': "\<forall>day\<in>set (day_range req).
      real_of_int r' - val vals' Penalty \<le> ?cov 1 day
      \<and> real_of_int r' - val vals' Penalty \<le> ?cov 2 day"
    using f' unfolding feasible_build_model_iff same by simp
  have c: "\<forall>day\<in>set (day_range req).
      real_of_int (n_workers_per_day req) - val vals' Penalty \<le> ?cov 1 day
      \<and> real_of_int (n_workers_per_day req) - val vals' Penalty \<le> ?cov 2 day"
  proof
    fix day assume "day \<in> set (day_range req)"
    with c' have "real_of_int r' - val vals' Penalty \<le> ?cov 1 day"
      "real_of_int r' - val vals' Penalty \<le> ?cov 2 day" by blast+
    with r show "real_of_int (n_workers_per_day req) - val vals' Penalty \<le> ?cov 1 day
      \<and> real_of_int (n_workers_per_day req) - val vals' Penalty \<le> ?cov 2 day"
      by linarith
  qed
  have "feasible (build_model fmt req) vals'"
    using f' c unfolding feasible_build_model_iff same by simp
  then have "val vals Penalty \<le> val vals' Penalty"
    using assms(1) unfolding optimal_build_model_iff by blast
  then show ?thesis by (simp add: objective_build_model)
qed

theorem penalty_monotone_witness:
  "optimal (build_model strftime_ymd req_scenario) vals_scenario
   \<and> optimal (build_model strftime_ymd (req_scenario\<lparr>n_workers_per_day := 5\<rparr>))
       (vals_of_schedule sched_scenario 1)
   \<and> n_workers_per_day req_scenario = 3
   \<and> val vals_scenario Penalty = 0
   \<and> val (vals_of_schedule sched_scenario 1) Penalty = 1
   \<and> val vals_scenario Penalty \<le> val (vals_of_schedule sched_scenario 1) Penalty"
proof -
  have o: "optimal (build_model strftime_ymd (req_scenario\<lparr>n_workers_per_day := 5\<rparr>))
       (vals_of_schedule sched_scenario 1)"
    using optimal_scenario_all by (simp add: req_scenario_all_def)
  have r: "n_workers_per_day req_scenario \<le> 5" by (simp add: fields_scenario)
  from penalty_monotone [OF optimal_scenario o r] optimal_scenario o
  show ?thesis
    by (simp add: fields_scenario vals_scenario_def val_vals_of_schedule)
qed

subsection \<open>Feasibility when the quotas fit the range\<close>

lemma filter_take_distinct:
  assumes "distinct (map f xs)"
  shows "filter (\<lambda>x. f x \<in> f ` set (take n xs)) xs = take n xs"
proof -
  have d: "distinct (map f (take n xs) @ map f (drop n xs))"
    using assms by (metis append_take_drop_id map_append)
  have "filter (\<lambda>x. f x \<in> f ` set (take n xs)) (take n xs) = take n xs"
    by (simp add: filter_id_conv)
  moreover have "filter (\<lambda>x. f x \<in> f ` set (take n xs)) (drop n xs) = []"
    using d by (auto simp: filter_empty_conv)
  ultimately have "filter (\<lambda>x. f x \<in> f ` set (take n xs)) (take n xs @ drop n xs) = take n xs"
    by (simp only: filter_append append_Nil2)
  then show ?thesis by simp
qed

lemma feasible_off_first:
  assumes "\<forall>w\<in>set (workers req). 0 \<le> days_off_input req w \<and> days_off_input req w \<le> n_days req"
    and "distinct (map (date_str fmt req) (day_range req))"
  shows "feasible (build_model fmt req)
           (vals_of_schedule (off_first fmt req) (max 0 (of_int (n_workers_per_day req))))"
  unfolding feasible_vals_of_schedule
proof (intro conjI ballI)
  show "0 \<le> max 0 (real_of_int (n_workers_per_day req))" by simp
next
  fix w day
  show "off_first fmt req w (date_str fmt req day) \<in> set shift_types"
    by (simp add: off_first_def shift_types_def)
next
  fix day
  let ?p = "max 0 (real_of_int (n_workers_per_day req))"
  have "0 \<le> (\<Sum>w\<leftarrow>workers req.
      (if off_first fmt req w (date_str fmt req day) = h then 0.5 else 0)
      + (if off_first fmt req w (date_str fmt req day) = 3 then 1 else (0::real)))" for h
    by (intro sum_list_nonneg) auto
  moreover have "real_of_int (n_workers_per_day req) - ?p \<le> 0" by simp
  ultimately show
    "real_of_int (n_workers_per_day req) - ?p
       \<le> (\<Sum>w\<leftarrow>workers req.
            (if off_first fmt req w (date_str fmt req day) = 1 then 0.5 else 0)
            + (if off_first fmt req w (date_str fmt req day) = 3 then 1 else 0))"
    "real_of_int (n_workers_per_day req) - ?p
       \<le> (\<Sum>w\<leftarrow>workers req.
            (if off_first fmt req w (date_str fmt req day) = 2 then 0.5 else 0)
            + (if off_first fmt req w (date_str fmt req day) = 3 then 1 else 0))"
    by (meson order_trans)+
next
  fix w assume w: "w \<in> set (workers req)"
  let ?q = "nat (days_off_input req w)"
  from assms(1) w have q: "0 \<le> days_off_input req w" "days_off_input req w \<le> n_days req"
    by auto
  then have l: "?q \<le> length (day_range req)"
    by (simp add: day_range_def)
  have "filter (\<lambda>day. off_first fmt req w (date_str fmt req day) = 0) (day_range req)
      = filter (\<lambda>day. date_str fmt req day \<in> date_str fmt req ` set (take ?q (day_range req)))
          (day_range req)"
    by (intro filter_cong) (auto simp: off_first_def)
  also have "\<dots> = take ?q (day_range req)"
    using assms(2) by (rule filter_take_distinct)
  finally show "int (length (filter (\<lambda>day. off_first fmt req w (date_str fmt req day) = 0)
      (day_range req))) = days_off_input req w"
    using l q by simp
qed

lemma coverage_half_integer:
  assumes "\<forall>w\<in>set ws. (vals (X w ds h) = Some 0 \<or> vals (X w ds h) = Some 1)
                        \<and> (vals (X w ds 3) = Some 0 \<or> vals (X w ds 3) = Some 1)"
  shows "\<exists>k::int. 2 * (\<Sum>w\<leftarrow>ws. 0.5 * val vals (X w ds h) + val vals (X w ds 3)) = of_int k"
  using assms
proof (induction ws)
  case Nil
  have "2 * (\<Sum>w\<leftarrow>[]. 0.5 * val vals (X w ds h) + val vals (X w ds 3)) = of_int 0" by simp
  then show ?case by blast
next
  case (Cons w ws)
  then obtain k :: int
    where k: "2 * (\<Sum>w\<leftarrow>ws. 0.5 * val vals (X w ds h) + val vals (X w ds 3)) = of_int k"
    by auto
  from Cons.prems obtain a b :: int
    where a: "val vals (X w ds h) = of_int a" and b: "val vals (X w ds 3) = of_int b"
    by (auto simp: val_def intro: that [of 0 0] that [of 0 1] that [of 1 0] that [of 1 1])
  have "2 * (\<Sum>w\<leftarrow>w # ws. 0.5 * val vals (X w ds h) + val vals (X w ds 3))
      = of_int (a + 2 * b + k)"
    using k a b by simp
  then show ?case by blast
qed

lemma round_constraint:
  assumes "2 * c = real_of_int k"
  shows "real_of_int r - p \<le> c \<longleftrightarrow> real_of_int r - real_of_int \<lfloor>2 * p\<rfloor> / 2 \<le> c"
proof -
  have "real_of_int r - p \<le> c \<longleftrightarrow> real_of_int (2 * r - k) \<le> 2 * p"
    using assms by auto
  also have "\<dots> \<longleftrightarrow> 2 * r - k \<le> \<lfloor>2 * p\<rfloor>"
    by (simp only: le_floor_iff)
  also have "\<dots> \<longleftrightarrow> real_of_int (2 * r - k) \<le> real_of_int \<lfloor>2 * p\<rfloor>"
    by (simp only: of_int_le_iff)
  also have "\<dots> \<longleftrightarrow> real_of_int r - real_of_int \<lfloor>2 * p\<rfloor> / 2 \<le> c"
    using assms by auto
  finally show ?thesis .
qed

lemma val_update_Penalty:
  "val (vals(Penalty \<mapsto> q)) Penalty = q"
  "val (vals(Penalty \<mapsto> q)) (X w ds s) = val vals (X w ds s)"
  by (simp_all add: val_def)

lemma feasible_round:
  assumes "feasible (build_model fmt req) vals"
  shows "feasible (build_model fmt req)
           (vals(Penalty \<mapsto> real_of_int \<lfloor>2 * val vals Penalty\<rfloor> / 2))"
proof -
  let ?p = "val vals Penalty"
  let ?q = "real_of_int \<lfloor>2 * ?p\<rfloor> / 2"
  let ?cov = "\<lambda>h day. (\<Sum>w\<leftarrow>workers req. 0.5 * val vals (X w (date_str fmt req day) h)
                                 + val vals (X w (date_str fmt req day) 3))"
  from assms have p: "0 \<le> ?p" by (rule feasible_penalty_nonneg)
  then have q: "0 \<le> ?q" by simp
  have b: "\<forall>w\<in>set (workers req). \<forall>day\<in>set (day_range req). \<forall>s\<in>set shift_types.
           vals (X w (date_str fmt req day) s) = Some 0
           \<or> vals (X w (date_str fmt req day) s) = Some 1"
    using assms unfolding feasible_build_model_iff by blast
  have c: "real_of_int (n_workers_per_day req) - ?q \<le> ?cov 1 day
         \<and> real_of_int (n_workers_per_day req) - ?q \<le> ?cov 2 day"
    if day: "day \<in> set (day_range req)" for day
  proof -
    from assms day have o: "real_of_int (n_workers_per_day req) - ?p \<le> ?cov 1 day"
      "real_of_int (n_workers_per_day req) - ?p \<le> ?cov 2 day"
      unfolding feasible_build_model_iff by blast+
    from b day obtain k1 k2 :: int where "2 * ?cov 1 day = of_int k1" "2 * ?cov 2 day = of_int k2"
      using coverage_half_integer [of "workers req" vals "date_str fmt req day" 1]
        coverage_half_integer [of "workers req" vals "date_str fmt req day" 2]
      by (auto simp: shift_types_def)
    with o show ?thesis
      using round_constraint [of "?cov 1 day" _ "n_workers_per_day req" ?p]
        round_constraint [of "?cov 2 day" _ "n_workers_per_day req" ?p]
      by blast
  qed
  have "(vals(Penalty \<mapsto> ?q)) Penalty = Some ?q"
    by (simp only: fun_upd_same)
  with q have pen: "\<exists>p'. (vals(Penalty \<mapsto> ?q)) Penalty = Some p' \<and> 0 \<le> p'"
    by blast
  have x: "(vals(Penalty \<mapsto> ?q)) (X w ds s) = vals (X w ds s)" for w ds s
    by simp
  have o: "\<forall>w\<in>set (workers req). \<forall>day\<in>set (day_range req).
           val vals (X w (date_str fmt req day) 0) + val vals (X w (date_str fmt req day) 1)
           + val vals (X w (date_str fmt req day) 2) + val vals (X w (date_str fmt req day) 3) = 1"
    and d: "\<forall>w\<in>set (workers req).
           (\<Sum>day\<leftarrow>day_range req. val vals (X w (date_str fmt req day) 0))
             = of_int (days_off_input req w)"
    using assms unfolding feasible_build_model_iff by blast+
  show ?thesis
    unfolding feasible_build_model_iff val_update_Penalty x
    using pen b o c d by blast
qed

lemma exists_optimal:
  assumes "feasible (build_model fmt req) vals0"
  shows "\<exists>vals. optimal (build_model fmt req) vals"
proof -
  let ?m = "build_model fmt req"
  let ?P = "\<lambda>j::nat. \<exists>vals. feasible ?m vals \<and> val vals Penalty = real j / 2"
  have r: "?P (nat \<lfloor>2 * val vals Penalty\<rfloor>)" if f: "feasible ?m vals" for vals
  proof -
    from f have "0 \<le> val vals Penalty" by (rule feasible_penalty_nonneg)
    then have "real (nat \<lfloor>2 * val vals Penalty\<rfloor>) = real_of_int \<lfloor>2 * val vals Penalty\<rfloor>"
      by simp
    with feasible_round [OF f] show ?thesis
      by (intro exI [of _ "vals(Penalty \<mapsto> real_of_int \<lfloor>2 * val vals Penalty\<rfloor> / 2)"])
         (simp add: val_update_Penalty)
  qed
  from r [OF assms] have "\<exists>j. ?P j" by blast
  then obtain j where j: "?P j" and least: "\<forall>i<j. \<not> ?P i"
    unfolding exists_least_iff [of ?P] by blast
  from j obtain vals where v: "feasible ?m vals" "val vals Penalty = real j / 2" by blast
  have "val vals Penalty \<le> val vals' Penalty" if f': "feasible ?m vals'" for vals'
  proof -
    from f' have nn: "0 \<le> val vals' Penalty" by (rule feasible_penalty_nonneg)
    from r [OF f'] least have "j \<le> nat \<lfloor>2 * val vals' Penalty\<rfloor>"
      by (meson not_le)
    then have "real j \<le> real (nat \<lfloor>2 * val vals' Penalty\<rfloor>)" by simp
    also have "\<dots> = real_of_int \<lfloor>2 * val vals' Penalty\<rfloor>" using nn by simp
    also have "\<dots> \<le> 2 * val vals' Penalty" by (rule of_int_floor_le)
    finally show ?thesis using v(2) by simp
  qed
  with v(1) show ?thesis
    unfolding optimal_build_model_iff by blast
qed

text \<open>
  C4: on a request that reaches the model, every worker's requested days off lie
  between 0 and the number of days of the range; then (the days of the range having
  different texts) the model has a feasible and an optimal solution, whatever the
  required staffing is; a backend that answers status 1 whenever an optimal solution
  exists then answers 1, and the run shows the success message and the table.
\<close>

theorem quotas_within_range_optimal:
  assumes "reaches_model req"
    and "distinct (map (date_str fmt req) (day_range req))"
  shows "(\<exists>vals. feasible (build_model fmt req) vals)
       \<and> (\<exists>vals. optimal (build_model fmt req) vals)
       \<and> (solver_complete solve (build_model fmt req) \<longrightarrow>
            status (run fmt solve req) = Some 1
            \<and> (\<exists>df. shown (run fmt solve req)
                      = [Success ''Optimal solution found.'', Write_table df, Csv_link df]))"
proof -
  have q: "\<forall>w\<in>set (workers req). 0 \<le> days_off_input req w \<and> days_off_input req w \<le> n_days req"
    using assms(1) by (simp add: reaches_model_def list_all_iff)
  have f: "\<exists>vals. feasible (build_model fmt req) vals"
    using feasible_off_first [OF q assms(2)] by blast
  then have o: "\<exists>vals. optimal (build_model fmt req) vals"
    using exists_optimal by blast
  have "status (run fmt solve req) = Some 1
      \<and> (\<exists>df. shown (run fmt solve req)
                = [Success ''Optimal solution found.'', Write_table df, Csv_link df])"
    if "solver_complete solve (build_model fmt req)"
  proof -
    from that o have "fst (solve (build_model fmt req)) = 1"
      by (simp add: solver_complete_def)
    then show ?thesis
      by (simp add: run_reaches [OF assms(1)] solve_and_show_fields)
  qed
  with f o show ?thesis by blast
qed

theorem quotas_within_range_optimal_witness:
  "reaches_model req_scenario
   \<and> map (days_off_input req_scenario) (workers req_scenario) = [1, 1, 1, 1, 1]
   \<and> n_days req_scenario = 5
   \<and> map (date_str strftime_ymd req_scenario) (day_range req_scenario)
       = [''2023-08-01'', ''2023-08-02'', ''2023-08-03'', ''2023-08-04'', ''2023-08-05'']
   \<and> solver_complete (solver_returning vals_scenario) (build_model strftime_ymd req_scenario)
   \<and> (\<exists>vals. optimal (build_model strftime_ymd req_scenario) vals)
   \<and> status (run strftime_ymd (solver_returning vals_scenario) req_scenario) = Some 1"
proof -
  have q: "map (days_off_input req_scenario) (workers req_scenario) = [1, 1, 1, 1, 1]"
    by (simp add: workers_scenario fields_scenario)
  have n: "n_days req_scenario = 5"
    by (simp add: n_days_def req_scenario_def)
  have ds: "map (date_str strftime_ymd req_scenario) (day_range req_scenario)
       = [''2023-08-01'', ''2023-08-02'', ''2023-08-03'', ''2023-08-04'', ''2023-08-05'']"
    by (simp add: day_range_scenario date_str_scenario)
  have d: "distinct (map (date_str strftime_ymd req_scenario) (day_range req_scenario))"
    unfolding ds by simp
  have c: "solver_complete (solver_returning vals_scenario) (build_model strftime_ymd req_scenario)"
    by (simp add: solver_complete_def solver_returning_def)
  from quotas_within_range_optimal [OF reaches_scenario d, of "solver_returning vals_scenario"] c
  have "(\<exists>vals. optimal (build_model strftime_ymd req_scenario) vals)
      \<and> status (run strftime_ymd (solver_returning vals_scenario) req_scenario) = Some 1"
    by blast
  with reaches_scenario q n ds c show ?thesis by blast
qed

end
